theory Spec2Isabelle
  imports Complex_Main
begin

section \<open>Texts\<close>

text \<open>
  A Python \<^verbatim>\<open>str\<close> is a sequence of code points. The texts of this development are
  sequences of the code points 0..255, one \<^typ>\<open>char\<close> each; on these \<^verbatim>\<open>str.lower\<close>
  keeps the length and the regular expression classes \<^verbatim>\<open>\d\<close> and \<^verbatim>\<open>\s\<close> are the
  ones below.
\<close>

definition is_digit :: "char \<Rightarrow> bool" where
  "is_digit c = (let n = (of_char c :: nat) in 48 \<le> n \<and> n \<le> 57)"

definition is_space :: "char \<Rightarrow> bool" where
  "is_space c = (let n = (of_char c :: nat) in
     (9 \<le> n \<and> n \<le> 13) \<or> (28 \<le> n \<and> n \<le> 32) \<or> n = 133 \<or> n = 160)"

definition lower_char :: "char \<Rightarrow> char" where
  "lower_char c = (let n = (of_char c :: nat) in
     if (65 \<le> n \<and> n \<le> 90) \<or> (192 \<le> n \<and> n \<le> 222 \<and> n \<noteq> 215)
     then char_of (n + 32) else c)"

definition lower :: "string \<Rightarrow> string" where
  "lower s = map lower_char s"

fun starts_with :: "string \<Rightarrow> string \<Rightarrow> bool" where
  "starts_with [] s = True"
| "starts_with (p # ps) [] = False"
| "starts_with (p # ps) (c # cs) = (p = c \<and> starts_with ps cs)"

text \<open>Python's \<^verbatim>\<open>needle in haystack\<close> on strings.\<close>

fun contains :: "string \<Rightarrow> string \<Rightarrow> bool" where
  "contains p [] = (p = [])"
| "contains p (c # cs) = (starts_with p (c # cs) \<or> contains p cs)"

text \<open>\<^verbatim>\<open>any(word in text for word in words)\<close>\<close>

definition any_word_in :: "string list \<Rightarrow> string \<Rightarrow> bool" where
  "any_word_in ws s = list_ex (\<lambda>w. contains w s) ws"

section \<open>Regular expression search\<close>

text \<open>
  The four patterns of \<^verbatim>\<open>chat_with_documents\<close> are sequences of literals, greedy
  repetitions of one character class and an alternation of literals, with the capture
  group in front. \<open>atom_ends a s\<close> lists the rests of \<open>s\<close> after every way \<open>a\<close> can match at
  its start, in the order a backtracking matcher tries them (longest repetition first,
  leftmost alternative first); \<open>re_search\<close> is \<^verbatim>\<open>re.search(...).group(1)\<close>: the group of
  the first successful path at the leftmost position that has one.
\<close>

datatype atom =
    Lit string
  | Many1 "char \<Rightarrow> bool"
  | Many0 "char \<Rightarrow> bool"
  | AnyOf "string list"

fun atom_ends :: "atom \<Rightarrow> string \<Rightarrow> string list" where
  "atom_ends (Lit l) s = (if starts_with l s then [drop (length l) s] else [])"
| "atom_ends (Many1 P) s = map (\<lambda>k. drop k s) (rev [1 ..< Suc (length (takeWhile P s))])"
| "atom_ends (Many0 P) s = map (\<lambda>k. drop k s) (rev [0 ..< Suc (length (takeWhile P s))])"
| "atom_ends (AnyOf ls) s =
     concat (map (\<lambda>l. if starts_with l s then [drop (length l) s] else []) ls)"

fun seq_ends :: "atom list \<Rightarrow> string \<Rightarrow> string list" where
  "seq_ends [] s = [s]"
| "seq_ends (a # as) s = concat (map (seq_ends as) (atom_ends a s))"

definition match_at :: "atom list \<Rightarrow> atom list \<Rightarrow> string \<Rightarrow> string option" where
  "match_at grp rest s =
     (case filter (\<lambda>r. seq_ends rest r \<noteq> []) (seq_ends grp s) of
        [] \<Rightarrow> None
      | r # _ \<Rightarrow> Some (take (length s - length r) s))"

fun re_search :: "atom list \<Rightarrow> atom list \<Rightarrow> string \<Rightarrow> string option" where
  "re_search grp rest [] = match_at grp rest []"
| "re_search grp rest (c # cs) =
     (case match_at grp rest (c # cs) of
        Some g \<Rightarrow> Some g
      | None \<Rightarrow> re_search grp rest cs)"

text \<open>\<^verbatim>\<open>(\d+)\s*mm\<close>\<close>

definition search_mm :: "string \<Rightarrow> string option" where
  "search_mm = re_search [Many1 is_digit] [Many0 is_space, Lit ''mm'']"

text \<open>\<^verbatim>\<open>(\d+\.\d+)g\<close>\<close>

definition search_g :: "string \<Rightarrow> string option" where
  "search_g = re_search [Many1 is_digit, Lit ''.'', Many1 is_digit] [Lit ''g'']"

text \<open>\<^verbatim>\<open>(\d+)\s*hours\<close>\<close>

definition search_hours :: "string \<Rightarrow> string option" where
  "search_hours = re_search [Many1 is_digit] [Many0 is_space, Lit ''hours'']"

text \<open>\<^verbatim>\<open>(\d+)\s*(?:independent|separate)\<close>\<close>

definition search_pumps :: "string \<Rightarrow> string option" where
  "search_pumps = re_search [Many1 is_digit] [Many0 is_space, AnyOf [''independent'', ''separate'']]"

section \<open>Numbers\<close>

text \<open>
  Python's \<^verbatim>\<open>float\<close> is IEEE 754 binary64. A finite value is the rational it denotes;
  \<open>to_double\<close> rounds a non-negative rational to the nearest binary64 value, ties to the
  even significand, as true division, multiplication and \<^verbatim>\<open>float(str)\<close> do (the result
  is \<open>2 ^ 1024\<close> or more exactly when the operation overflows).
\<close>

definition round_half_even :: "rat \<Rightarrow> int" where
  "round_half_even x = (let f = \<lfloor>x\<rfloor>; d = x - of_int f in
     if d < 1 / 2 then f else if 1 / 2 < d then f + 1 else if even f then f else f + 1)"

text \<open>\<^verbatim>\<open>int.bit_length\<close> of a non-negative integer.\<close>

function bit_length :: "int \<Rightarrow> int" where
  "bit_length n = (if n \<le> 0 then 0 else 1 + bit_length (n div 2))"
  by pat_completeness auto
termination
  by (relation "measure nat") auto

definition pow2 :: "int \<Rightarrow> rat" where
  "pow2 k = (if 0 \<le> k then 2 ^ nat k else 1 / 2 ^ nat (- k))"

definition floor_log2 :: "rat \<Rightarrow> int" where
  "floor_log2 x = (case quotient_of x of (p, q) \<Rightarrow>
     let k = bit_length p - bit_length q in
     if pow2 k \<le> x then k else k - 1)"

definition to_double :: "rat \<Rightarrow> rat" where
  "to_double x = (if x = 0 then 0 else
     let e = max (floor_log2 x - 52) (- 1074)
     in of_int (round_half_even (x / pow2 e)) * pow2 e)"

datatype pyfloat = Finite rat | Infinity

text \<open>\<^verbatim>\<open>a >= b\<close> on floats that are not NaN and not negative.\<close>

fun float_ge :: "pyfloat \<Rightarrow> pyfloat \<Rightarrow> bool" where
  "float_ge Infinity b = True"
| "float_ge (Finite x) Infinity = False"
| "float_ge (Finite x) (Finite y) = (y \<le> x)"

definition digit_value :: "char \<Rightarrow> int" where
  "digit_value c = of_char c - 48"

text \<open>The integer that a string of decimal digits denotes.\<close>

definition int_of_digits :: "string \<Rightarrow> int" where
  "int_of_digits s = foldl (\<lambda>n c. 10 * n + digit_value c) 0 s"

datatype error = UnboundLocalError | ValueError | ZeroDivisionError

text \<open>
  The value of \<^verbatim>\<open>float(s)\<close> for a string of decimal digits: the integer it denotes,
  rounded to binary64.
\<close>

definition float_of_digits :: "string \<Rightarrow> pyfloat" where
  "float_of_digits s =
     (let x = to_double (of_int (int_of_digits s))
      in if 2 ^ 1024 \<le> x then Infinity else Finite x)"

text \<open>
  \<^verbatim>\<open>float(s)\<close>. The only strings the program passes to it are capture groups of
  \<^verbatim>\<open>(\d+)\<close>; any other string is reported as the \<^verbatim>\<open>ValueError\<close> that Python raises
  for text that is not a number.
\<close>

definition py_float :: "string \<Rightarrow> error + pyfloat" where
  "py_float s =
     (if s \<noteq> [] \<and> list_all is_digit s then Inr (float_of_digits s) else Inl ValueError)"

text \<open>\<^verbatim>\<open>str(n)\<close> for a non-negative integer.\<close>

function str_int :: "int \<Rightarrow> string" where
  "str_int n = (if n < 10 then [char_of (48 + n)]
     else str_int (n div 10) @ [char_of (48 + n mod 10)])"
  by pat_completeness auto
termination
  by (relation "measure nat") auto

text \<open>\<^verbatim>\<open>f"{x:.1f}"\<close> for a finite non-negative value: one decimal, correctly rounded.\<close>

definition format_1f :: "rat \<Rightarrow> string" where
  "format_1f x = (let t = round_half_even (x * 10)
     in str_int (t div 10) @ ''.'' @ str_int (t mod 10))"

text \<open>\<^verbatim>\<open>a / b * 100\<close> on integers, \<open>b\<close> positive: true division, then a float product.\<close>

definition percentage :: "int \<Rightarrow> int \<Rightarrow> rat" where
  "percentage a b = to_double (to_double (of_int a / of_int b) * 100)"

section \<open>Answering questions about a batch of results\<close>

text \<open>
  A compliance result is a dictionary from strings to strings;
  \<^verbatim>\<open>result.get(key, default)\<close> reads it.
\<close>

type_synonym result = "string \<rightharpoonup> string"

definition get_default :: "result \<Rightarrow> string \<Rightarrow> string \<Rightarrow> string" where
  "get_default r key dflt = (case r key of None \<Rightarrow> dflt | Some v \<Rightarrow> v)"

text \<open>
  The local variables that the loop over the batch assigns. \<open>re_bound\<close> records whether
  the statement \<^verbatim>\<open>import re\<close>, which stands inside the first branch of the loop body and
  makes \<^verbatim>\<open>re\<close> a local name of the function, has been executed: until then every use of
  \<^verbatim>\<open>re\<close> raises \<^verbatim>\<open>UnboundLocalError\<close>.
\<close>

record extraction =
  design_thickness :: string
  required_thickness :: string
  design_seismic :: string
  required_seismic :: string
  design_hours :: string
  required_hours :: string
  design_pumps :: string
  required_pumps :: string
  re_bound :: bool

definition initial_extraction :: extraction where
  "initial_extraction =
     \<lparr> design_thickness = ''N/A'', required_thickness = ''N/A'',
       design_seismic = ''N/A'', required_seismic = ''N/A'',
       design_hours = ''N/A'', required_hours = ''N/A'',
       design_pumps = ''N/A'', required_pumps = ''N/A'',
       re_bound = False \<rparr>"

text \<open>\<^verbatim>\<open>m = re.search(...); if m: x = m.group(1)\<close>\<close>

definition assign_if_match :: "string option \<Rightarrow> string \<Rightarrow> string" where
  "assign_if_match m old = (case m of None \<Rightarrow> old | Some g \<Rightarrow> g)"

text \<open>One iteration of \<^verbatim>\<open>for result in compliance_results\<close>.\<close>

definition extract_step :: "extraction \<Rightarrow> result \<Rightarrow> error + extraction" where
  "extract_step st result =
     (let regulation_text = lower (get_default result ''regulation_text'' []);
          design_text_lower = lower (get_default result ''design_text'' [])
      in
      if contains ''insulation'' regulation_text \<and> contains ''thickness'' regulation_text then
        Inr (st\<lparr> re_bound := True,
                 required_thickness :=
                   assign_if_match (search_mm regulation_text) (required_thickness st),
                 design_thickness :=
                   assign_if_match (search_mm design_text_lower) (design_thickness st) \<rparr>)
      else if contains ''seismic'' regulation_text then
        (if \<not> re_bound st then Inl UnboundLocalError
         else Inr (st\<lparr> required_seismic :=
                           assign_if_match (search_g regulation_text) (required_seismic st),
                         design_seismic :=
                           assign_if_match (search_g design_text_lower) (design_seismic st) \<rparr>))
      else if contains ''hours'' regulation_text \<and> contains ''emergency'' regulation_text then
        (if \<not> re_bound st then Inl UnboundLocalError
         else Inr (st\<lparr> required_hours :=
                           assign_if_match (search_hours regulation_text) (required_hours st),
                         design_hours :=
                           assign_if_match (search_hours design_text_lower) (design_hours st) \<rparr>))
      else if contains ''pumps'' regulation_text \<and> contains ''containment'' regulation_text then
        (if \<not> re_bound st then Inl UnboundLocalError
         else Inr (st\<lparr> required_pumps :=
                           assign_if_match (search_pumps regulation_text) (required_pumps st),
                         design_pumps :=
                           assign_if_match (search_pumps design_text_lower) (design_pumps st) \<rparr>))
      else Inr st)"

text \<open>The loop: it stops at the first iteration that raises.\<close>

fun extract_loop :: "extraction \<Rightarrow> result list \<Rightarrow> error + extraction" where
  "extract_loop st [] = Inr st"
| "extract_loop st (result # results) =
     (case extract_step st result of
        Inl e \<Rightarrow> Inl e
      | Inr st' \<Rightarrow> extract_loop st' results)"

text \<open>
  \<^verbatim>\<open>sum(1 for r in compliance_results if r.get('compliance_status') == 'Compliant')\<close>
\<close>

definition compliant_count :: "result list \<Rightarrow> nat" where
  "compliant_count compliance_results =
     length (filter (\<lambda>r. r ''compliance_status'' = Some ''Compliant'') compliance_results)"

text \<open>
  \<^verbatim>\<open>f"{compliance_score:.1f}"\<close>: the score is the integer 0 for an empty batch and the
  float \<^verbatim>\<open>compliant_count / total_checks * 100\<close> otherwise.
\<close>

definition score_text :: "result list \<Rightarrow> string" where
  "score_text compliance_results =
     (if compliance_results = [] then format_1f 0
      else format_1f (percentage (int (compliant_count compliance_results))
                                 (int (length compliance_results))))"

definition issues_count :: "result list \<Rightarrow> nat" where
  "issues_count compliance_results =
     (if compliance_results = [] then 0
      else length compliance_results - compliant_count compliance_results)"

text \<open>The response templates, filled by \<^verbatim>\<open>str.format\<close>.\<close>

definition compliance_response :: "string \<Rightarrow> string \<Rightarrow> string" where
  "compliance_response score issues =
     ''Based on the analysis, the overall compliance score is '' @ score @ ''%. '' @ issues
     @ '' issues were found.''"

definition insulation_response :: "string \<Rightarrow> string \<Rightarrow> string" where
  "insulation_response design required =
     ''The design specifies '' @ design @ ''mm insulation thickness, while regulations ''
     @ ''require minimum '' @ required @ ''mm.''"

definition seismic_response :: "string \<Rightarrow> string \<Rightarrow> string" where
  "seismic_response design required =
     ''The design can withstand '' @ design @ ''g seismic events, while regulations ''
     @ ''require minimum '' @ required @ ''g.''"

definition emergency_response :: "string \<Rightarrow> string \<Rightarrow> string \<Rightarrow> string" where
  "emergency_response design meets required =
     ''The emergency cooling system can operate for '' @ design
     @ '' hours without external power, which '' @ meets @ '' the required '' @ required
     @ '' hours.''"

definition pumps_response :: "string \<Rightarrow> string \<Rightarrow> string" where
  "pumps_response design required =
     ''The containment spray system has '' @ design @ '' pumps, while regulations ''
     @ ''require minimum '' @ required @ '' pumps.''"

definition help_message :: string where
  "help_message =
     ''I can help you with questions about compliance scores, insulation thickness, ''
     @ ''seismic resistance, emergency power requirements, and containment pumps. ''
     @ ''Please ask a specific question about these topics.''"

text \<open>
  \<^verbatim>\<open>design_hours != "N/A" and required_hours != "N/A" and
  float(design_hours) >= float(required_hours)\<close>, evaluated left to right.
\<close>

definition hours_meet :: "string \<Rightarrow> string \<Rightarrow> error + bool" where
  "hours_meet dh rh =
     (if dh \<noteq> ''N/A'' \<and> rh \<noteq> ''N/A'' then
        (case py_float dh of
           Inl e \<Rightarrow> Inl e
         | Inr a \<Rightarrow> (case py_float rh of
                      Inl e \<Rightarrow> Inl e
                    | Inr b \<Rightarrow> Inr (float_ge a b)))
      else Inr False)"

text \<open>The chain of tests on the lower-cased question.\<close>

definition respond :: "string \<Rightarrow> result list \<Rightarrow> extraction \<Rightarrow> error + string" where
  "respond user_question compliance_results st =
     (let question_lower = lower user_question in
      if any_word_in [''compliance'', ''score'', ''overall'', ''result''] question_lower then
        Inr (compliance_response (score_text compliance_results)
               (str_int (int (issues_count compliance_results))))
      else if any_word_in [''insulation'', ''thickness''] question_lower then
        Inr (insulation_response (design_thickness st) (required_thickness st))
      else if any_word_in [''seismic'', ''earthquake''] question_lower then
        Inr (seismic_response (design_seismic st) (required_seismic st))
      else if any_word_in [''emergency'', ''power'', ''hours''] question_lower then
        (case hours_meet (design_hours st) (required_hours st) of
           Inl e \<Rightarrow> Inl e
         | Inr b \<Rightarrow>
             Inr (emergency_response (design_hours st)
                    (if b then ''meets'' else ''does not meet'') (required_hours st)))
      else if any_word_in [''pumps'', ''containment''] question_lower then
        Inr (pumps_response (design_pumps st) (required_pumps st))
      else Inr help_message)"

definition chat_with_documents ::
    "string \<Rightarrow> string \<Rightarrow> string \<Rightarrow> result list \<Rightarrow> error + string" where
  "chat_with_documents user_question design_text regulations_text compliance_results =
     (case extract_loop initial_extraction compliance_results of
        Inl e \<Rightarrow> Inl e
      | Inr st \<Rightarrow> respond user_question compliance_results st)"

subsection \<open>The categories of the value extraction, as the specification describes them\<close>

text \<open>
  The specification describes the loop body as a table of category tests on the record's
  lower-cased regulation text, tried in order, and the values of a category as the matches
  of its pattern in the records of that category. These definitions follow that
  description; the theorems below compare them with \<open>extract_step\<close> and \<open>extract_loop\<close>.
\<close>

datatype category = Insulation | Seismic | Emergency | Pumps

definition category_tests :: "((string \<Rightarrow> bool) \<times> category) list" where
  "category_tests =
     [(\<lambda>t. contains ''insulation'' t \<and> contains ''thickness'' t, Insulation),
      (\<lambda>t. contains ''seismic'' t, Seismic),
      (\<lambda>t. contains ''hours'' t \<and> contains ''emergency'' t, Emergency),
      (\<lambda>t. contains ''pumps'' t \<and> contains ''containment'' t, Pumps)]"

definition first_matching_category :: "string \<Rightarrow> category option" where
  "first_matching_category t = map_option snd (find (\<lambda>pc. fst pc t) category_tests)"

fun category_search :: "category \<Rightarrow> string \<Rightarrow> string option" where
  "category_search Insulation = search_mm"
| "category_search Seismic = search_g"
| "category_search Emergency = search_hours"
| "category_search Pumps = search_pumps"

fun design_slot :: "category \<Rightarrow> extraction \<Rightarrow> string" where
  "design_slot Insulation st = design_thickness st"
| "design_slot Seismic st = design_seismic st"
| "design_slot Emergency st = design_hours st"
| "design_slot Pumps st = design_pumps st"

fun required_slot :: "category \<Rightarrow> extraction \<Rightarrow> string" where
  "required_slot Insulation st = required_thickness st"
| "required_slot Seismic st = required_seismic st"
| "required_slot Emergency st = required_hours st"
| "required_slot Pumps st = required_pumps st"

definition regulation_side :: "result \<Rightarrow> string" where
  "regulation_side r = lower (get_default r ''regulation_text'' [])"

definition design_side :: "result \<Rightarrow> string" where
  "design_side r = lower (get_default r ''design_text'' [])"

text \<open>
  The value that a record yields for a category on one side (\<open>None\<close> when the record is
  of another category or the pattern does not match), and the values found in a batch, in
  the order of the records.
\<close>

definition value_of_record :: "category \<Rightarrow> (result \<Rightarrow> string) \<Rightarrow> result \<Rightarrow> string option" where
  "value_of_record c side r =
     (if first_matching_category (regulation_side r) = Some c
      then category_search c (side r) else None)"

definition values_found :: "category \<Rightarrow> (result \<Rightarrow> string) \<Rightarrow> result list \<Rightarrow> string list" where
  "values_found c side rs = List.map_filter (value_of_record c side) rs"


definition last_found :: "category \<Rightarrow> (result \<Rightarrow> string) \<Rightarrow> result list \<Rightarrow> string" where
  "last_found c side rs = (case rev (values_found c side rs) of [] \<Rightarrow> ''N/A'' | v # _ \<Rightarrow> v)"

text \<open>
  A pump count next to its token: a non-empty run of digits, then only whitespace, then
  \<^verbatim>\<open>independent\<close> or \<^verbatim>\<open>separate\<close>.
\<close>

definition count_before_token :: "string \<Rightarrow> string \<Rightarrow> bool" where
  "count_before_token g s =
     (\<exists>pre ws tok post. s = pre @ g @ ws @ tok @ post \<and> g \<noteq> [] \<and> list_all is_digit g
        \<and> list_all is_space ws \<and> (tok = ''independent'' \<or> tok = ''separate''))"

subsection \<open>The topics of a question\<close>

datatype topic = ComplianceTopic | InsulationTopic | SeismicTopic | EmergencyTopic | PumpsTopic

definition topic_keywords :: "(string list \<times> topic) list" where
  "topic_keywords =
     [([''compliance'', ''score'', ''overall'', ''result''], ComplianceTopic),
      ([''insulation'', ''thickness''], InsulationTopic),
      ([''seismic'', ''earthquake''], SeismicTopic),
      ([''emergency'', ''power'', ''hours''], EmergencyTopic),
      ([''pumps'', ''containment''], PumpsTopic)]"

definition question_topic :: "string \<Rightarrow> topic option" where
  "question_topic q =
     map_option snd (find (\<lambda>kt. any_word_in (fst kt) (lower q)) topic_keywords)"

subsection \<open>Sample results\<close>

text \<open>Results for the first four test cases of the benchmark.\<close>

definition result_insulation :: result where
  "result_insulation =
     [''regulation_text'' \<mapsto> ''All cooling system connections must have standard thermal insulation with a minimum thickness of 50 mm.'',
      ''design_text'' \<mapsto> ''The cooling system connections are insulated with standard thermal insulation with a thickness of 45mm.'',
      ''compliance_status'' \<mapsto> ''Non-Compliant'']"

definition result_seismic :: result where
  "result_seismic =
     [''regulation_text'' \<mapsto> ''Seismic resistance with a minimum intensity of 0.35g is mandatory for all cooling system components.'',
      ''design_text'' \<mapsto> ''All cooling system components are designed to withstand seismic events up to 0.25g intensity.'',
      ''compliance_status'' \<mapsto> ''Non-Compliant'']"

definition result_emergency :: result where
  "result_emergency =
     [''regulation_text'' \<mapsto> ''The emergency cooling system must be able to operate for at least 72 hours without an external power source in case of power failure.'',
      ''design_text'' \<mapsto> ''The emergency cooling system can operate without external power for 96 hours.'',
      ''compliance_status'' \<mapsto> ''Compliant'']"

definition result_pumps :: result where
  "result_pumps =
     [''regulation_text'' \<mapsto> ''The containment spray system must consist of at least three independent pumps.'',
      ''design_text'' \<mapsto> ''Containment spray system consists of two independent pumps with separate power supplies.'',
      ''compliance_status'' \<mapsto> ''Non-Compliant'']"

definition sample_batch :: "result list" where
  "sample_batch = [result_insulation, result_seismic, result_emergency, result_pumps]"

section \<open>The benchmark harness\<close>

text \<open>
  A test case of \<^verbatim>\<open>_load_test_cases\<close>. The compliance checker is an argument of
  \<^verbatim>\<open>run_compliance_benchmark\<close>: here a function from the design and the regulation text
  to the dictionary it returns, or to the message of the exception it raises.
\<close>

record test_case =
  tc_id :: string
  tc_name :: string
  tc_design :: string
  tc_regulation :: string
  tc_expected_status :: string
  tc_expected_reasoning :: string
  tc_category :: string

type_synonym checker = "string \<Rightarrow> string \<Rightarrow> string + result"

text \<open>
  The dictionary that the harness stores for a test case; a key that the dictionary
  lacks is \<open>None\<close>. The processing time and the raw result are left out: nothing below
  reads them.
\<close>

record case_result =
  cr_test_case_id :: "string option"
  cr_test_case_name :: "string option"
  cr_category :: "string option"
  cr_expected_status :: "string option"
  cr_actual_status :: "string option"
  cr_is_correct :: "bool option"
  cr_error :: "string option"

text \<open>The body of the loop of \<^verbatim>\<open>run_compliance_benchmark\<close>, with its \<^verbatim>\<open>try\<close>.\<close>

definition run_test_case :: "checker \<Rightarrow> test_case \<Rightarrow> case_result" where
  "run_test_case check_compliance test_case =
     (case check_compliance (tc_design test_case) (tc_regulation test_case) of
        Inr result \<Rightarrow>
          (let actual_status = get_default result ''compliance_status'' ''Unknown'';
               is_correct = (actual_status = tc_expected_status test_case)
           in \<lparr> cr_test_case_id = Some (tc_id test_case),
                cr_test_case_name = Some (tc_name test_case),
                cr_category = Some (tc_category test_case),
                cr_expected_status = Some (tc_expected_status test_case),
                cr_actual_status = Some actual_status,
                cr_is_correct = Some is_correct,
                cr_error = None \<rparr>)
      | Inl e \<Rightarrow>
          \<lparr> cr_test_case_id = Some (tc_id test_case),
            cr_test_case_name = Some (tc_name test_case),
            cr_category = Some (tc_category test_case),
            cr_expected_status = None,
            cr_actual_status = None,
            cr_is_correct = Some False,
            cr_error = Some e \<rparr>)"

text \<open>\<^verbatim>\<open>case.get("is_correct", False)\<close> and \<^verbatim>\<open>case.get("category", "unknown")\<close>\<close>

definition is_correct :: "case_result \<Rightarrow> bool" where
  "is_correct c = (case cr_is_correct c of None \<Rightarrow> False | Some b \<Rightarrow> b)"

definition category_key :: "case_result \<Rightarrow> string" where
  "category_key c = (case cr_category c of None \<Rightarrow> ''unknown'' | Some k \<Rightarrow> k)"

definition status_key :: "case_result \<Rightarrow> string" where
  "status_key c = (case cr_actual_status c of None \<Rightarrow> ''Unknown'' | Some k \<Rightarrow> k)"

text \<open>
  The first loop of \<^verbatim>\<open>_calculate_summary_metrics\<close>: the dictionary \<^verbatim>\<open>categories\<close>, with
  the pair of \<^verbatim>\<open>total\<close> and \<^verbatim>\<open>correct\<close> for every key.
\<close>

fun count_categories ::
    "(string \<rightharpoonup> nat \<times> nat) \<Rightarrow> case_result list \<Rightarrow> (string \<rightharpoonup> nat \<times> nat)" where
  "count_categories categories [] = categories"
| "count_categories categories (c # cs) =
     (let category = category_key c;
          entry = (case categories category of None \<Rightarrow> (0, 0) | Some e \<Rightarrow> e);
          entry' = (fst entry + 1, if is_correct c then snd entry + 1 else snd entry)
      in count_categories (categories(category \<mapsto> entry')) cs)"

record category_entry =
  total :: nat
  correct :: nat
  accuracy :: rat

text \<open>
  The second loop: \<^verbatim>\<open>(correct / total * 100) if total > 0 else 0\<close> for every key.
  Numbers are modelled by their values, so the integer 0 and the float 0.0 coincide.
\<close>

definition accuracy_of :: "nat \<Rightarrow> nat \<Rightarrow> rat" where
  "accuracy_of correct_n total_n = (if total_n > 0 then percentage (int correct_n) (int total_n) else 0)"

definition with_accuracy :: "(string \<rightharpoonup> nat \<times> nat) \<Rightarrow> (string \<rightharpoonup> category_entry)" where
  "with_accuracy categories =
     (\<lambda>category. case categories category of
        None \<Rightarrow> None
      | Some (t, k) \<Rightarrow> Some \<lparr> total = t, correct = k, accuracy = accuracy_of k t \<rparr>)"

text \<open>The third loop: \<^verbatim>\<open>status_counts[status] = status_counts.get(status, 0) + 1\<close>.\<close>

fun count_statuses :: "(string \<rightharpoonup> nat) \<Rightarrow> case_result list \<Rightarrow> (string \<rightharpoonup> nat)" where
  "count_statuses status_counts [] = status_counts"
| "count_statuses status_counts (c # cs) =
     count_statuses
       (status_counts(status_key c \<mapsto>
          (case status_counts (status_key c) of None \<Rightarrow> 0 | Some n \<Rightarrow> n) + 1)) cs"

record summary =
  total_test_cases :: nat
  correct_predictions :: nat
  overall_accuracy :: rat
  category_performance :: "string \<rightharpoonup> category_entry"
  status_distribution :: "string \<rightharpoonup> nat"

definition calculate_summary_metrics :: "case_result list \<Rightarrow> summary" where
  "calculate_summary_metrics test_cases =
     (let total_cases = length test_cases;
          correct_cases = length (filter is_correct test_cases)
      in \<lparr> total_test_cases = total_cases,
           correct_predictions = correct_cases,
           overall_accuracy = accuracy_of correct_cases total_cases,
           category_performance = with_accuracy (count_categories Map.empty test_cases),
           status_distribution = count_statuses Map.empty test_cases \<rparr>)"

text \<open>
  \<^verbatim>\<open>run_compliance_benchmark\<close>: the stored case results and their summary. After the
  summary the function computes \<^verbatim>\<open>total_time / len(self.test_cases)\<close> and
  \<^verbatim>\<open>len(self.test_cases) / total_time\<close>, which raise \<^verbatim>\<open>ZeroDivisionError\<close> when there
  is no test case or the measured time is zero. The measured time is an argument here;
  the timestamp and the values of the timing figures are left out.
\<close>

definition run_compliance_benchmark ::
    "checker \<Rightarrow> test_case list \<Rightarrow> rat \<Rightarrow> error + case_result list \<times> summary" where
  "run_compliance_benchmark check_compliance test_cases total_time =
     (let results = map (run_test_case check_compliance) test_cases;
          summary = calculate_summary_metrics results
      in if test_cases = [] \<or> total_time = 0 then Inl ZeroDivisionError
         else Inr (results, summary))"

text \<open>What the specification says of the scores, for a category \<open>k\<close>.\<close>

definition cases_of_category :: "string \<Rightarrow> case_result list \<Rightarrow> case_result list" where
  "cases_of_category k cs = filter (\<lambda>c. category_key c = k) cs"

definition status_returned :: "checker \<Rightarrow> test_case \<Rightarrow> string option" where
  "status_returned check_compliance test_case =
     (case check_compliance (tc_design test_case) (tc_regulation test_case) of
        Inl e \<Rightarrow> None
      | Inr result \<Rightarrow> Some (get_default result ''compliance_status'' ''Unknown''))"

text \<open>Three test cases of the benchmark and a checker that answers them.\<close>

definition tc001 :: test_case where
  "tc001 = \<lparr> tc_id = ''TC001'', tc_name = ''Insulation Thickness Compliance'',
     tc_design = ''thickness of 45mm'', tc_regulation = ''minimum thickness of 50 mm'',
     tc_expected_status = ''Non-Compliant'',
     tc_expected_reasoning = ''thickness less than required'',
     tc_category = ''material_specifications'' \<rparr>"

definition tc002 :: test_case where
  "tc002 = \<lparr> tc_id = ''TC002'', tc_name = ''Seismic Resistance Compliance'',
     tc_design = ''up to 0.25g'', tc_regulation = ''minimum intensity of 0.35g'',
     tc_expected_status = ''Non-Compliant'',
     tc_expected_reasoning = ''seismic resistance below requirement'',
     tc_category = ''safety_requirements'' \<rparr>"

definition tc006 :: test_case where
  "tc006 = \<lparr> tc_id = ''TC006'', tc_name = ''Material Specification Compliance'',
     tc_design = ''316L stainless steel'', tc_regulation = ''300-series stainless steel'',
     tc_expected_status = ''Compliant'',
     tc_expected_reasoning = ''material meets specification'',
     tc_category = ''material_specifications'' \<rparr>"

text \<open>
  The sample checker answers \<^verbatim>\<open>Non-Compliant\<close> for the insulation case, raises for the
  seismic case and answers \<^verbatim>\<open>Unknown\<close> otherwise.
\<close>

definition sample_checker :: checker where
  "sample_checker design regulation =
     (if contains ''thickness'' regulation then Inr [''compliance_status'' \<mapsto> ''Non-Compliant'']
      else if contains ''0.35g'' regulation then Inl ''no rule''
      else Inr [''compliance_status'' \<mapsto> ''Unknown''])"

section \<open>The Comparator\<close>

text \<open>
  The compliance checker itself (\<^verbatim>\<open>compliance_checker.py\<close>) is not among the source
  files: only its callers are. Its Comparator is modelled from the specification.
\<close>

datatype claim_category =
    InsulationThickness
  | SeismicResistance
  | EmergencyPowerDuration
  | ContainmentPumpCount
  | MaterialGrade
  | Unrecognized

text \<open>
  The value of an extracted claim: absent, a parsed number, the grade family of a design,
  or the set of grade families that a requirement accepts.
\<close>

datatype claim_value =
    Absent
  | Number rat
  | GradeFamily string
  | AcceptedFamilies "string list"

datatype verdict = Compliant | NonCompliant | Unknown

text \<open>
  Modelled from the spec: the Comparator's verdict (\<^verbatim>\<open>compare\<close> of section 4.3), which
  \<^verbatim>\<open>compliance_checker.py\<close> implements and which is missing from the sources. The four
  numeric categories are Compliant iff the design value is at least the required value;
  material grade is Compliant iff the design's family is among the accepted families;
  an absent claim on either side, or an unrecognized category, is Unknown. A value of
  the wrong shape for the category counts as a claim that could not be located. The
  wording of the reasoning text is not fixed by the specification and is left out.
\<close>

fun compare :: "claim_category \<Rightarrow> claim_value \<Rightarrow> claim_value \<Rightarrow> verdict" where
  "compare Unrecognized d r = Unknown"
| "compare MaterialGrade (GradeFamily g) (AcceptedFamilies gs) =
     (if g \<in> set gs then Compliant else NonCompliant)"
| "compare MaterialGrade d r = Unknown"
| "compare c (Number d) (Number r) = (if r \<le> d then Compliant else NonCompliant)"
| "compare c d r = Unknown"

definition numeric_category :: "claim_category \<Rightarrow> bool" where
  "numeric_category c =
     (c = InsulationThickness \<or> c = SeismicResistance \<or> c = EmergencyPowerDuration
      \<or> c = ContainmentPumpCount)"

section \<open>Further sample results\<close>


text \<open>A record whose regulation text mentions seismic events and emergency hours.\<close>

definition result_seismic_hours :: result where
  "result_seismic_hours =
     [''regulation_text'' \<mapsto> ''Seismic events of 0.35g: emergency power for 72 hours'',
      ''design_text'' \<mapsto> ''Withstands 0.30g and runs 96 hours'',
      ''compliance_status'' \<mapsto> ''Non-Compliant'']"

text \<open>
  A pumps record whose regulation text has its count away from the token and whose
  design text has it next to the token.
\<close>

definition result_pumps_counted :: result where
  "result_pumps_counted =
     [''regulation_text'' \<mapsto> ''Containment needs 3 pumps, independent ones'',
      ''design_text'' \<mapsto> ''Containment with 2 Separate pumps'',
      ''compliance_status'' \<mapsto> ''Non-Compliant'']"

text \<open>An emergency power record with 9 hours designed and 10 hours required.\<close>

definition result_emergency_short :: result where
  "result_emergency_short =
     [''regulation_text'' \<mapsto> ''Emergency power for at least 10 hours'',
      ''design_text'' \<mapsto> ''Runs 9 hours'',
      ''compliance_status'' \<mapsto> ''Non-Compliant'']"

text \<open>The local variables after the loop has processed the first insulation record.\<close>

definition after_insulation :: extraction where
  "after_insulation =
     initial_extraction\<lparr> re_bound := True, required_thickness := ''50'',
                          design_thickness := ''45'' \<rparr>"

text \<open>The category of the first record of a batch that has one.\<close>

definition first_categorised :: "result list \<Rightarrow> category option" where
  "first_categorised rs =
     (case List.map_filter (\<lambda>r. first_matching_category (regulation_side r)) rs of
        [] \<Rightarrow> None
      | c # _ \<Rightarrow> Some c)"

text \<open>The four sample results with the seismic result first.\<close>

definition reordered_batch :: "result list" where
  "reordered_batch = [result_seismic, result_insulation, result_emergency, result_pumps]"

text \<open>An emergency power record with equal hours on both sides.\<close>

definition result_emergency_equal :: result where
  "result_emergency_equal =
     [''regulation_text'' \<mapsto> ''Emergency power for at least 72 hours'',
      ''design_text'' \<mapsto> ''Runs 72 hours'',
      ''compliance_status'' \<mapsto> ''Compliant'']"

text \<open>
  A pumps record whose regulation text has the pump count away from the tokens and
  another number next to one.
\<close>

definition result_pumps_mixed :: result where
  "result_pumps_mixed =
     [''regulation_text'' \<mapsto> ''The containment spray system needs 3 pumps with 2 separate power supplies'',
      ''design_text'' \<mapsto> ''Containment spray system with three pumps'',
      ''compliance_status'' \<mapsto> ''Unknown'']"

text \<open>The suffixes of a text, and \<open>count_before_token\<close> as a test that can be run.\<close>

fun tails :: "string \<Rightarrow> string list" where
  "tails [] = [[]]"
| "tails (c # cs) = (c # cs) # tails cs"

definition count_before_token_check :: "string \<Rightarrow> string \<Rightarrow> bool" where
  "count_before_token_check g s =
     (g \<noteq> [] \<and> list_all is_digit g
      \<and> list_ex (\<lambda>t. starts_with g t
            \<and> seq_ends [Many0 is_space, AnyOf [''independent'', ''separate'']]
                  (drop (length g) t) \<noteq> [])
          (tails s))"

section \<open>The value extraction on the sample results\<close>

lemma step_insulation_sample:
  "extract_step initial_extraction result_insulation =
     Inr (initial_extraction\<lparr> re_bound := True, required_thickness := ''50'',
                              design_thickness := ''45'' \<rparr>)"
  by code_simp

lemma step_seismic_unbound:
  "extract_step initial_extraction result_seismic = Inl UnboundLocalError"
  by code_simp

lemma step_emergency_unbound:
  "extract_step initial_extraction result_emergency = Inl UnboundLocalError"
  by code_simp

lemma step_pumps_unbound:
  "extract_step initial_extraction result_pumps = Inl UnboundLocalError"
  by code_simp

section \<open>The documents passed to the chat are not read\<close>

text \<open>
  C10. The outcome of \<^verbatim>\<open>chat_with_documents\<close> (the response text, or the exception) is
  the same for every two calls with the same question and the same batch of results,
  whatever the design text and the regulations text of the two calls are; so two calls
  with the same question and batch give the same response.
\<close>

theorem chat_independent_of_documents:
  "chat_with_documents user_question design_text regulations_text compliance_results =
   chat_with_documents user_question design_text' regulations_text' compliance_results"
  by (simp add: chat_with_documents_def)

section \<open>What the regular expression search returns\<close>

lemma starts_with_iff: "starts_with p s \<longleftrightarrow> (\<exists>r. s = p @ r)"
  by (induction p s rule: starts_with.induct) auto

lemma starts_with_drop: "starts_with p s \<Longrightarrow> s = p @ drop (length p) s"
  by (auto simp: starts_with_iff)

lemma contains_iff: "contains p s \<longleftrightarrow> (\<exists>pre post. s = pre @ p @ post)"
proof (induction s)
  case Nil
  then show ?case by auto
next
  case (Cons c cs)
  show ?case
  proof
    assume "contains p (c # cs)"
    then consider "starts_with p (c # cs)" | "contains p cs" by auto
    then show "\<exists>pre post. c # cs = pre @ p @ post"
    proof cases
      case 1
      then obtain r where "c # cs = p @ r" by (auto simp: starts_with_iff)
      then have "c # cs = [] @ p @ r" by simp
      then show ?thesis by blast
    next
      case 2
      then obtain pre post where "cs = pre @ p @ post" using Cons.IH by auto
      then have "c # cs = (c # pre) @ p @ post" by simp
      then show ?thesis by blast
    qed
  next
    assume "\<exists>pre post. c # cs = pre @ p @ post"
    then obtain pre post where eq: "c # cs = pre @ p @ post" by auto
    show "contains p (c # cs)"
    proof (cases pre)
      case Nil
      then have "starts_with p (c # cs)" using eq by (auto simp: starts_with_iff)
      then show ?thesis by simp
    next
      case (Cons a pre')
      then have "cs = pre' @ p @ post" using eq by simp
      then have "contains p cs" using Cons.IH by blast
      then show ?thesis by simp
    qed
  qed
qed

lemma take_le_takeWhile:
  "k \<le> length (takeWhile P s) \<Longrightarrow> list_all P (take k s)"
proof -
  assume k: "k \<le> length (takeWhile P s)"
  have "take k (takeWhile P s @ dropWhile P s) = take k (takeWhile P s)"
    using k by (simp only: take_append) simp
  then have "take k s = take k (takeWhile P s)" by simp
  then have "set (take k s) \<subseteq> set (takeWhile P s)" by (simp add: set_take_subset)
  then show ?thesis by (auto simp: list_all_iff dest: set_takeWhileD)
qed

lemma length_le_takeWhile:
  "list_all P u \<Longrightarrow> length u \<le> length (takeWhile P (u @ r))"
  by (simp add: list_all_iff takeWhile_append2)

lemma many1_ends_set:
  "set (atom_ends (Many1 P) s) = (\<lambda>k. drop k s) ` {1 .. length (takeWhile P s)}"
  by (simp del: upt_Suc add: atLeastLessThanSuc_atLeastAtMost)

lemma many0_ends_set:
  "set (atom_ends (Many0 P) s) = (\<lambda>k. drop k s) ` {0 .. length (takeWhile P s)}"
  by (simp del: upt_Suc add: atLeastLessThanSuc_atLeastAtMost)

lemma many1_ends:
  "r \<in> set (atom_ends (Many1 P) s) \<longleftrightarrow> (\<exists>u. s = u @ r \<and> u \<noteq> [] \<and> list_all P u)"
proof
  assume "r \<in> set (atom_ends (Many1 P) s)"
  then obtain k where k: "1 \<le> k" "k \<le> length (takeWhile P s)" and r: "r = drop k s"
    unfolding many1_ends_set by auto
  have "length (takeWhile P s) \<le> length s" by (rule length_takeWhile_le)
  then have "take k s \<noteq> []" using k by auto
  moreover have "s = take k s @ r" using r by simp
  moreover have "list_all P (take k s)" using k by (simp add: take_le_takeWhile)
  ultimately show "\<exists>u. s = u @ r \<and> u \<noteq> [] \<and> list_all P u" by blast
next
  assume "\<exists>u. s = u @ r \<and> u \<noteq> [] \<and> list_all P u"
  then obtain u where u: "s = u @ r" "u \<noteq> []" "list_all P u" by auto
  then have "length u \<le> length (takeWhile P s)" by (simp add: length_le_takeWhile)
  moreover have "1 \<le> length u" using u by (cases u) auto
  moreover have "r = drop (length u) s" using u by simp
  ultimately show "r \<in> set (atom_ends (Many1 P) s)"
    unfolding many1_ends_set by (intro image_eqI [where x = "length u"]) auto
qed

lemma many0_ends:
  "r \<in> set (atom_ends (Many0 P) s) \<longleftrightarrow> (\<exists>u. s = u @ r \<and> list_all P u)"
proof
  assume "r \<in> set (atom_ends (Many0 P) s)"
  then obtain k where k: "k \<le> length (takeWhile P s)" and r: "r = drop k s"
    unfolding many0_ends_set by auto
  have "s = take k s @ r" using r by simp
  moreover have "list_all P (take k s)" using k by (simp add: take_le_takeWhile)
  ultimately show "\<exists>u. s = u @ r \<and> list_all P u" by blast
next
  assume "\<exists>u. s = u @ r \<and> list_all P u"
  then obtain u where u: "s = u @ r" "list_all P u" by auto
  then have "length u \<le> length (takeWhile P s)" by (simp add: length_le_takeWhile)
  moreover have "r = drop (length u) s" using u by simp
  ultimately show "r \<in> set (atom_ends (Many0 P) s)"
    unfolding many0_ends_set by (intro image_eqI [where x = "length u"]) auto
qed

lemma lit_ends: "r \<in> set (atom_ends (Lit l) s) \<longleftrightarrow> s = l @ r"
  by (auto simp: starts_with_iff)

lemma anyof_ends: "r \<in> set (atom_ends (AnyOf ls) s) \<longleftrightarrow> (\<exists>l \<in> set ls. s = l @ r)"
proof -
  have "atom_ends (AnyOf ls) s = concat (map (\<lambda>l. atom_ends (Lit l) s) ls)"
    by simp
  then have "r \<in> set (atom_ends (AnyOf ls) s) \<longleftrightarrow>
      (\<exists>l \<in> set ls. r \<in> set (atom_ends (Lit l) s))"
    by (simp del: atom_ends.simps)
  then show ?thesis by (simp only: lit_ends)
qed

lemma concat_seq_ends_nil: "concat (map (seq_ends []) xs) = xs"
  by (induction xs) simp_all

lemma seq_ends_single: "seq_ends [a] s = atom_ends a s"
  by (simp add: concat_seq_ends_nil)

declare atom_ends.simps [simp del]

lemma seq_ends_cons:
  "r \<in> set (seq_ends (a # as) s) \<longleftrightarrow> (\<exists>m \<in> set (atom_ends a s). r \<in> set (seq_ends as m))"
  by auto

declare seq_ends.simps [simp del]

lemma nonempty_iff_member: "xs \<noteq> [] \<longleftrightarrow> (\<exists>x. x \<in> set xs)"
  by (cases xs) auto

lemma match_at_Some:
  assumes "match_at grp rest s = Some g"
  shows "\<exists>r \<in> set (seq_ends grp s). seq_ends rest r \<noteq> [] \<and> g = take (length s - length r) s"
proof -
  obtain r rs where f: "filter (\<lambda>r. seq_ends rest r \<noteq> []) (seq_ends grp s) = r # rs"
    and g: "g = take (length s - length r) s"
    using assms by (auto simp: match_at_def split: list.splits)
  have "r \<in> set (filter (\<lambda>r. seq_ends rest r \<noteq> []) (seq_ends grp s))"
    unfolding f by simp
  then show ?thesis using g by auto
qed

lemma match_at_None:
  "match_at grp rest s = None \<longleftrightarrow> (\<forall>r \<in> set (seq_ends grp s). seq_ends rest r = [])"
proof -
  have "match_at grp rest s = None \<longleftrightarrow>
      filter (\<lambda>r. seq_ends rest r \<noteq> []) (seq_ends grp s) = []"
    by (simp add: match_at_def split: list.splits)
  then show ?thesis by (simp add: filter_empty_conv)
qed

lemma re_search_Some:
  "re_search grp rest s = Some g \<Longrightarrow> \<exists>pre s'. s = pre @ s' \<and> match_at grp rest s' = Some g"
proof (induction s)
  case Nil
  then show ?case by auto
next
  case (Cons c cs)
  show ?case
  proof (cases "match_at grp rest (c # cs)")
    case None
    then have "re_search grp rest cs = Some g" using Cons.prems by simp
    then obtain pre s' where "cs = pre @ s'" "match_at grp rest s' = Some g"
      using Cons.IH by blast
    then have "c # cs = (c # pre) @ s' \<and> match_at grp rest s' = Some g" by simp
    then show ?thesis by blast
  next
    case (Some h)
    then have "c # cs = [] @ (c # cs) \<and> match_at grp rest (c # cs) = Some g"
      using Cons.prems by simp
    then show ?thesis by blast
  qed
qed

lemma re_search_None:
  "re_search grp rest (pre @ s') = None \<Longrightarrow> match_at grp rest s' = None"
proof (induction pre)
  case Nil
  then show ?case by (cases s') (auto split: option.splits)
next
  case (Cons c pre)
  then show ?case by (auto split: option.splits)
qed

text \<open>A group \<^verbatim>\<open>(\d+)\<close> captures a non-empty run of digits, followed by a match of the rest.\<close>

lemma search_many1_Some:
  assumes "re_search [Many1 P] rest s = Some g"
  shows "\<exists>pre r. s = pre @ g @ r \<and> g \<noteq> [] \<and> list_all P g \<and> seq_ends rest r \<noteq> []"
proof -
  obtain pre s' where s: "s = pre @ s'" and m: "match_at [Many1 P] rest s' = Some g"
    using re_search_Some [OF assms] by blast
  obtain r where r: "r \<in> set (seq_ends [Many1 P] s')" "seq_ends rest r \<noteq> []"
      and g: "g = take (length s' - length r) s'"
    using match_at_Some [OF m] by blast
  have "r \<in> set (atom_ends (Many1 P) s')" using r(1) by (simp only: seq_ends_single)
  then obtain u where u: "s' = u @ r" "u \<noteq> []" "list_all P u"
    unfolding many1_ends by blast
  have "g = u" using g u(1) by simp
  then show ?thesis using s u r(2) by auto
qed

lemma search_many1_None:
  assumes "re_search [Many1 P] rest s = None"
      and "s = pre @ u @ r" and "u \<noteq> []" and "list_all P u"
  shows "seq_ends rest r = []"
proof -
  have "match_at [Many1 P] rest (u @ r) = None"
    using assms(1,2) re_search_None by blast
  moreover have "r \<in> set (atom_ends (Many1 P) (u @ r))"
    unfolding many1_ends using assms(3,4) by blast
  ultimately show ?thesis by (simp add: match_at_None seq_ends_single)
qed

text \<open>The rest \<^verbatim>\<open>\s*(?:a|b)\<close> matches exactly whitespace followed by one of the literals.\<close>

lemma spaces_then_token:
  "seq_ends [Many0 Q, AnyOf toks] r \<noteq> [] \<longleftrightarrow>
     (\<exists>ws tok post. r = ws @ tok @ post \<and> list_all Q ws \<and> tok \<in> set toks)"
proof
  assume "seq_ends [Many0 Q, AnyOf toks] r \<noteq> []"
  then obtain post where "post \<in> set (seq_ends [Many0 Q, AnyOf toks] r)"
    unfolding nonempty_iff_member by blast
  then obtain m where m: "m \<in> set (atom_ends (Many0 Q) r)"
      and post: "post \<in> set (seq_ends [AnyOf toks] m)"
    unfolding seq_ends_cons by blast
  obtain ws where ws: "r = ws @ m" "list_all Q ws"
    using m unfolding many0_ends by blast
  obtain tok where tok: "tok \<in> set toks" "m = tok @ post"
    using post unfolding seq_ends_single anyof_ends by blast
  show "\<exists>ws tok post. r = ws @ tok @ post \<and> list_all Q ws \<and> tok \<in> set toks"
    using ws tok by blast
next
  assume "\<exists>ws tok post. r = ws @ tok @ post \<and> list_all Q ws \<and> tok \<in> set toks"
  then obtain ws tok post where h: "r = ws @ tok @ post" "list_all Q ws" "tok \<in> set toks"
    by blast
  have "tok @ post \<in> set (atom_ends (Many0 Q) r)"
    unfolding many0_ends using h(1,2) by blast
  moreover have "post \<in> set (seq_ends [AnyOf toks] (tok @ post))"
    unfolding seq_ends_single anyof_ends using h(3) by blast
  ultimately have "post \<in> set (seq_ends [Many0 Q, AnyOf toks] r)"
    unfolding seq_ends_cons [of post "Many0 Q"] by blast
  then show "seq_ends [Many0 Q, AnyOf toks] r \<noteq> []"
    unfolding nonempty_iff_member by blast
qed

lemma search_pumps_Some: "search_pumps s = Some g \<Longrightarrow> count_before_token g s"
proof -
  assume "search_pumps s = Some g"
  then obtain pre r where s: "s = pre @ g @ r" "g \<noteq> []" "list_all is_digit g"
      and r: "seq_ends [Many0 is_space, AnyOf [''independent'', ''separate'']] r \<noteq> []"
    unfolding search_pumps_def using search_many1_Some by blast
  obtain ws tok post where "r = ws @ tok @ post" "list_all is_space ws"
      "tok \<in> set [''independent'', ''separate'']"
    using r unfolding spaces_then_token by blast
  then show ?thesis using s unfolding count_before_token_def by auto
qed

lemma search_pumps_None: "search_pumps s = None \<Longrightarrow> \<not> count_before_token g s"
proof
  assume none: "search_pumps s = None" and "count_before_token g s"
  then obtain pre ws tok post where s: "s = pre @ g @ (ws @ tok @ post)" "g \<noteq> []"
      "list_all is_digit g" "list_all is_space ws"
      "tok \<in> set [''independent'', ''separate'']"
    unfolding count_before_token_def by auto
  have "seq_ends [Many0 is_space, AnyOf [''independent'', ''separate'']] (ws @ tok @ post) = []"
    using search_many1_None [OF none [unfolded search_pumps_def] s(1) s(2) s(3)] .
  moreover have "seq_ends [Many0 is_space, AnyOf [''independent'', ''separate'']] (ws @ tok @ post) \<noteq> []"
    unfolding spaces_then_token using s(4,5) by blast
  ultimately show False by simp
qed

lemma search_hours_digits:
  "search_hours s = Some g \<Longrightarrow> g \<noteq> [] \<and> list_all is_digit g"
  unfolding search_hours_def using search_many1_Some by blast

section \<open>The loop over the batch\<close>

declare str_int.simps [simp del] bit_length.simps [simp del]

lemma first_matching_category_eq:
  "first_matching_category t =
     (if contains ''insulation'' t \<and> contains ''thickness'' t then Some Insulation
      else if contains ''seismic'' t then Some Seismic
      else if contains ''hours'' t \<and> contains ''emergency'' t then Some Emergency
      else if contains ''pumps'' t \<and> contains ''containment'' t then Some Pumps
      else None)"
  by (simp add: first_matching_category_def category_tests_def)

lemma question_topic_eq:
  "question_topic q =
     (if any_word_in [''compliance'', ''score'', ''overall'', ''result''] (lower q)
        then Some ComplianceTopic
      else if any_word_in [''insulation'', ''thickness''] (lower q) then Some InsulationTopic
      else if any_word_in [''seismic'', ''earthquake''] (lower q) then Some SeismicTopic
      else if any_word_in [''emergency'', ''power'', ''hours''] (lower q) then Some EmergencyTopic
      else if any_word_in [''pumps'', ''containment''] (lower q) then Some PumpsTopic
      else None)"
  by (simp add: question_topic_def topic_keywords_def)

text \<open>One iteration, by the category of the record.\<close>

lemma extract_step_by_category:
  "extract_step st r =
     (case first_matching_category (regulation_side r) of
        None \<Rightarrow> Inr st
      | Some Insulation \<Rightarrow>
          Inr (st\<lparr> re_bound := True,
                   required_thickness :=
                     assign_if_match (search_mm (regulation_side r)) (required_thickness st),
                   design_thickness :=
                     assign_if_match (search_mm (design_side r)) (design_thickness st) \<rparr>)
      | Some Seismic \<Rightarrow>
          (if \<not> re_bound st then Inl UnboundLocalError
           else Inr (st\<lparr> required_seismic :=
                             assign_if_match (search_g (regulation_side r)) (required_seismic st),
                           design_seismic :=
                             assign_if_match (search_g (design_side r)) (design_seismic st) \<rparr>))
      | Some Emergency \<Rightarrow>
          (if \<not> re_bound st then Inl UnboundLocalError
           else Inr (st\<lparr> required_hours :=
                             assign_if_match (search_hours (regulation_side r)) (required_hours st),
                           design_hours :=
                             assign_if_match (search_hours (design_side r)) (design_hours st) \<rparr>))
      | Some Pumps \<Rightarrow>
          (if \<not> re_bound st then Inl UnboundLocalError
           else Inr (st\<lparr> required_pumps :=
                             assign_if_match (search_pumps (regulation_side r)) (required_pumps st),
                           design_pumps :=
                             assign_if_match (search_pumps (design_side r)) (design_pumps st) \<rparr>)))"
  by (simp add: extract_step_def Let_def first_matching_category_eq regulation_side_def
        design_side_def)

text \<open>One iteration assigns the slots of the record's category and no other slot.\<close>

lemma extract_step_design_slot:
  assumes "extract_step st r = Inr st'"
  shows "design_slot c st' =
     (case value_of_record c design_side r of None \<Rightarrow> design_slot c st | Some v \<Rightarrow> v)"
  using assms unfolding extract_step_by_category value_of_record_def
  by (cases c)
     (auto simp: assign_if_match_def split: option.splits category.splits if_splits)

lemma extract_step_required_slot:
  assumes "extract_step st r = Inr st'"
  shows "required_slot c st' =
     (case value_of_record c regulation_side r of None \<Rightarrow> required_slot c st | Some v \<Rightarrow> v)"
  using assms unfolding extract_step_by_category value_of_record_def
  by (cases c)
     (auto simp: assign_if_match_def split: option.splits category.splits if_splits)

lemma values_found_Cons:
  "values_found c side (r # rs) =
     (case value_of_record c side r of
        None \<Rightarrow> values_found c side rs
      | Some v \<Rightarrow> v # values_found c side rs)"
  by (simp add: values_found_def map_filter_simps split: option.splits)

lemma last_of_Cons:
  "(case rev (x # xs) of [] \<Rightarrow> d | v # _ \<Rightarrow> v) = (case rev xs of [] \<Rightarrow> x | v # _ \<Rightarrow> v)"
  by (cases "rev xs") auto

lemma extract_loop_design_slot:
  "extract_loop st rs = Inr st' \<Longrightarrow>
   design_slot c st' =
     (case rev (values_found c design_side rs) of [] \<Rightarrow> design_slot c st | v # _ \<Rightarrow> v)"
proof (induction rs arbitrary: st)
  case Nil
  then show ?case by (simp add: values_found_def map_filter_simps)
next
  case (Cons r rs)
  then obtain st1 where step: "extract_step st r = Inr st1"
      and loop: "extract_loop st1 rs = Inr st'"
    by (auto split: sum.splits)
  show ?case
    using Cons.IH [OF loop] extract_step_design_slot [OF step, of c]
    by (simp add: values_found_Cons split: option.splits list.splits)
qed

lemma extract_loop_required_slot:
  "extract_loop st rs = Inr st' \<Longrightarrow>
   required_slot c st' =
     (case rev (values_found c regulation_side rs) of [] \<Rightarrow> required_slot c st | v # _ \<Rightarrow> v)"
proof (induction rs arbitrary: st)
  case Nil
  then show ?case by (simp add: values_found_def map_filter_simps)
next
  case (Cons r rs)
  then obtain st1 where step: "extract_step st r = Inr st1"
      and loop: "extract_loop st1 rs = Inr st'"
    by (auto split: sum.splits)
  show ?case
    using Cons.IH [OF loop] extract_step_required_slot [OF step, of c]
    by (simp add: values_found_Cons split: option.splits list.splits)
qed

lemma initial_slots:
  "design_slot c initial_extraction = ''N/A''" "required_slot c initial_extraction = ''N/A''"
  by (cases c; simp add: initial_extraction_def)+

lemma slots_are_last_found:
  assumes "extract_loop initial_extraction rs = Inr st"
  shows "design_slot c st = last_found c design_side rs"
    and "required_slot c st = last_found c regulation_side rs"
  using extract_loop_design_slot [OF assms, of c] extract_loop_required_slot [OF assms, of c]
  unfolding last_found_def initial_slots by simp_all

lemma chat_Inr:
  "chat_with_documents q d r rs = Inr resp \<longleftrightarrow>
     (\<exists>st. extract_loop initial_extraction rs = Inr st \<and> respond q rs st = Inr resp)"
  by (auto simp: chat_with_documents_def split: sum.splits)

lemma respond_by_topic:
  "respond q rs st =
     (case question_topic q of
        None \<Rightarrow> Inr help_message
      | Some ComplianceTopic \<Rightarrow>
          Inr (compliance_response (score_text rs) (str_int (int (issues_count rs))))
      | Some InsulationTopic \<Rightarrow>
          Inr (insulation_response (design_thickness st) (required_thickness st))
      | Some SeismicTopic \<Rightarrow>
          Inr (seismic_response (design_seismic st) (required_seismic st))
      | Some EmergencyTopic \<Rightarrow>
          (case hours_meet (design_hours st) (required_hours st) of
             Inl e \<Rightarrow> Inl e
           | Inr b \<Rightarrow>
               Inr (emergency_response (design_hours st)
                      (if b then ''meets'' else ''does not meet'') (required_hours st)))
      | Some PumpsTopic \<Rightarrow>
          Inr (pumps_response (design_pumps st) (required_pumps st)))"
  by (simp add: respond_def Let_def question_topic_eq)

lemma value_of_record_eq:
  "value_of_record c side r =
     (if first_matching_category (regulation_side r) = Some c
      then category_search c (side r) else None)"
  by (simp add: value_of_record_def)

section \<open>One record, one category\<close>

text \<open>
  C8. An iteration of the loop that completes changes the slots of at most one
  category: the first category, in the order insulation and thickness, seismic, hours
  and emergency, pumps and containment, whose keyword test the lower-cased regulation
  text of the record passes. The slots of every other category keep their values, and
  the slots of that category take the matches of its pattern, if any. So a record whose
  regulation text mentions seismic as well as emergency and hours (and does not pass the
  earlier insulation test) is a seismic record and leaves the hours slots as they were.
\<close>

theorem record_contributes_to_first_matching_category:
  assumes "extract_step st r = Inr st'"
  shows "(\<forall>c. first_matching_category (regulation_side r) \<noteq> Some c \<longrightarrow>
            design_slot c st' = design_slot c st \<and> required_slot c st' = required_slot c st)
       \<and> (\<forall>c. first_matching_category (regulation_side r) = Some c \<longrightarrow>
            design_slot c st' =
              assign_if_match (category_search c (design_side r)) (design_slot c st)
          \<and> required_slot c st' =
              assign_if_match (category_search c (regulation_side r)) (required_slot c st))
       \<and> (contains ''seismic'' (regulation_side r) \<and> contains ''hours'' (regulation_side r)
            \<and> contains ''emergency'' (regulation_side r)
            \<and> \<not> (contains ''insulation'' (regulation_side r)
                  \<and> contains ''thickness'' (regulation_side r)) \<longrightarrow>
            first_matching_category (regulation_side r) = Some Seismic
          \<and> design_hours st' = design_hours st \<and> required_hours st' = required_hours st)"
proof -
  have other: "design_slot c st' = design_slot c st \<and> required_slot c st' = required_slot c st"
    if "first_matching_category (regulation_side r) \<noteq> Some c" for c
    using extract_step_design_slot [OF assms, of c] extract_step_required_slot [OF assms, of c]
      that
    by (simp add: value_of_record_eq)
  have own: "design_slot c st' =
        assign_if_match (category_search c (design_side r)) (design_slot c st)
      \<and> required_slot c st' =
        assign_if_match (category_search c (regulation_side r)) (required_slot c st)"
    if "first_matching_category (regulation_side r) = Some c" for c
    using extract_step_design_slot [OF assms, of c] extract_step_required_slot [OF assms, of c]
      that
    by (simp add: value_of_record_eq assign_if_match_def)
  have seismic: "first_matching_category (regulation_side r) = Some Seismic
      \<and> design_hours st' = design_hours st \<and> required_hours st' = required_hours st"
    if "contains ''seismic'' (regulation_side r)"
      and "\<not> (contains ''insulation'' (regulation_side r)
             \<and> contains ''thickness'' (regulation_side r))"
  proof -
    have cat: "first_matching_category (regulation_side r) = Some Seismic"
      using that by (simp add: first_matching_category_eq)
    then have "first_matching_category (regulation_side r) \<noteq> Some Emergency" by simp
    from other [OF this] cat show ?thesis by simp
  qed
  show ?thesis using other own seismic by blast
qed

theorem record_contributes_to_first_matching_category_witness:
  "extract_step after_insulation result_seismic_hours
     = Inr (after_insulation\<lparr> required_seismic := ''0.35'', design_seismic := ''0.30'' \<rparr>)
   \<and> first_matching_category (regulation_side result_seismic_hours) = Some Seismic
   \<and> search_hours (regulation_side result_seismic_hours) = Some ''72''
   \<and> design_hours (after_insulation\<lparr> required_seismic := ''0.35'', design_seismic := ''0.30'' \<rparr>)
       = design_hours after_insulation
   \<and> required_hours (after_insulation\<lparr> required_seismic := ''0.35'', design_seismic := ''0.30'' \<rparr>)
       = required_hours after_insulation"
proof -
  have step: "extract_step after_insulation result_seismic_hours
     = Inr (after_insulation\<lparr> required_seismic := ''0.35'', design_seismic := ''0.30'' \<rparr>)"
    by code_simp
  have words: "contains ''seismic'' (regulation_side result_seismic_hours)
      \<and> contains ''hours'' (regulation_side result_seismic_hours)
      \<and> contains ''emergency'' (regulation_side result_seismic_hours)
      \<and> \<not> (contains ''insulation'' (regulation_side result_seismic_hours)
            \<and> contains ''thickness'' (regulation_side result_seismic_hours))"
    by code_simp
  have hours: "search_hours (regulation_side result_seismic_hours) = Some ''72''"
    by code_simp
  show ?thesis
    using record_contributes_to_first_matching_category [OF step] words step hours by blast
qed

section \<open>Which values a response shows\<close>




lemma pumps_response_values:
  assumes "chat_with_documents q d r rs = Inr resp" and "question_topic q = Some PumpsTopic"
  shows "resp = pumps_response (last_found Pumps design_side rs)
                  (last_found Pumps regulation_side rs)"
proof -
  obtain st where loop: "extract_loop initial_extraction rs = Inr st"
      and resp: "respond q rs st = Inr resp"
    using assms(1) unfolding chat_Inr by blast
  show ?thesis
    using resp assms(2) slots_are_last_found [OF loop, of Pumps]
    by (simp add: respond_by_topic)
qed



section \<open>Hours as floats\<close>

lemma bit_length_le: "0 \<le> n \<Longrightarrow> n < 2 ^ k \<Longrightarrow> bit_length n \<le> int k"
proof (induction k arbitrary: n)
  case 0
  then have "n \<le> 0" by simp
  then show ?case by (simp add: bit_length.simps)
next
  case (Suc k)
  show ?case
  proof (cases "n \<le> 0")
    case True
    then show ?thesis by (simp add: bit_length.simps)
  next
    case False
    have "n div 2 < 2 ^ k" using Suc.prems by auto
    moreover have "0 \<le> n div 2" using Suc.prems by auto
    ultimately have "bit_length (n div 2) \<le> int k" by (rule Suc.IH [rotated])
    moreover have "bit_length n = 1 + bit_length (n div 2)"
      using False by (subst bit_length.simps) simp
    ultimately show ?thesis by simp
  qed
qed

lemma bit_length_one: "bit_length 1 = 1"
  by code_simp

lemma floor_log2_int_le:
  assumes "0 \<le> n" and "n < 2 ^ 53"
  shows "floor_log2 (of_int n) \<le> 52"
proof -
  have "bit_length n \<le> 53" using bit_length_le [OF assms] by simp
  then show ?thesis
    by (simp add: floor_log2_def quotient_of_int Let_def bit_length_one)
qed

lemma round_half_even_of_int: "round_half_even (of_int z) = z"
  by (simp add: round_half_even_def)

lemma to_double_int:
  assumes "0 \<le> n" and "n < 2 ^ 53"
  shows "to_double (of_int n) = of_int n"
proof (cases "n = 0")
  case True
  then show ?thesis by (simp add: to_double_def)
next
  case False
  define e where "e = max (floor_log2 (of_int n) - 52) (- 1074)"
  define m where "m = nat (- e)"
  have e: "e \<le> 0" using floor_log2_int_le [OF assms] by (simp add: e_def)
  have pow: "pow2 e = 1 / 2 ^ m"
  proof (cases "e = 0")
    case True
    then show ?thesis by (simp add: pow2_def m_def)
  next
    case False
    then show ?thesis using e by (simp add: pow2_def m_def)
  qed
  have "of_int n / pow2 e = (of_int (n * 2 ^ m) :: rat)"
    by (simp add: pow)
  then have "round_half_even (of_int n / pow2 e) = n * 2 ^ m"
    by (simp only: round_half_even_of_int)
  then have "to_double (of_int n) = of_int (n * 2 ^ m) * pow2 e"
    using False by (simp add: to_double_def Let_def e_def)
  then show ?thesis by (simp add: pow)
qed

lemma digit_value_nonneg: "is_digit c \<Longrightarrow> 0 \<le> digit_value c"
proof -
  assume "is_digit c"
  then have "48 \<le> (of_char c :: nat)" by (simp add: is_digit_def Let_def)
  then have "48 \<le> int (of_char c)" by simp
  then have "48 \<le> (of_char c :: int)" by (simp only: of_nat_of_char)
  then show ?thesis by (simp add: digit_value_def)
qed

lemma foldl_digits_nonneg:
  "list_all is_digit s \<Longrightarrow> 0 \<le> a \<Longrightarrow> 0 \<le> foldl (\<lambda>n c. 10 * n + digit_value c) a s"
proof (induction s arbitrary: a)
  case Nil
  then show ?case by simp
next
  case (Cons c s)
  have "0 \<le> 10 * a + digit_value c"
    using Cons.prems digit_value_nonneg [of c] by simp
  then show ?case using Cons by simp
qed

lemma int_of_digits_nonneg: "list_all is_digit s \<Longrightarrow> 0 \<le> int_of_digits s"
  by (simp add: int_of_digits_def foldl_digits_nonneg)

text \<open>Below \<open>2 ^ 53\<close> the float of a string of digits is the integer it denotes.\<close>

lemma float_of_digits_exact:
  assumes "list_all is_digit s" and "int_of_digits s < 2 ^ 53"
  shows "float_of_digits s = Finite (of_int (int_of_digits s))"
proof -
  have "to_double (of_int (int_of_digits s)) = of_int (int_of_digits s)"
    using int_of_digits_nonneg [OF assms(1)] assms(2) by (rule to_double_int)
  moreover have "(of_int (int_of_digits s) :: rat) < 2 ^ 53"
    using assms(2) by (metis of_int_less_numeral_power_cancel_iff)
  moreover have "(2 :: rat) ^ 53 \<le> 2 ^ 1024"
    by (rule power_increasing) simp_all
  ultimately show ?thesis by (simp add: float_of_digits_def Let_def)
qed

lemma float_ge_exact:
  assumes "list_all is_digit a" "int_of_digits a < 2 ^ 53"
      and "list_all is_digit b" "int_of_digits b < 2 ^ 53"
  shows "float_ge (float_of_digits a) (float_of_digits b) \<longleftrightarrow> int_of_digits b \<le> int_of_digits a"
proof -
  have "float_of_digits a = Finite (of_int (int_of_digits a))"
    using assms(1,2) by (rule float_of_digits_exact)
  moreover have "float_of_digits b = Finite (of_int (int_of_digits b))"
    using assms(3,4) by (rule float_of_digits_exact)
  ultimately show ?thesis by simp
qed

text \<open>The hours slots hold \<^verbatim>\<open>N/A\<close> or a non-empty string of digits.\<close>

lemma values_found_member:
  "v \<in> set (values_found c side rs) \<Longrightarrow> \<exists>x. category_search c x = Some v"
  by (auto simp: values_found_def map_filter_def value_of_record_eq split: if_splits)

lemma last_found_cases:
  "last_found c side rs = ''N/A'' \<or> last_found c side rs \<in> set (values_found c side rs)"
proof (cases "rev (values_found c side rs)")
  case Nil
  then show ?thesis by (simp add: last_found_def)
next
  case (Cons v vs)
  then have "v \<in> set (rev (values_found c side rs))" by simp
  then show ?thesis using Cons by (simp add: last_found_def)
qed

lemma hours_slot_digits:
  assumes "last_found Emergency side rs \<noteq> ''N/A''"
  shows "last_found Emergency side rs \<noteq> [] \<and> list_all is_digit (last_found Emergency side rs)"
proof -
  have "last_found Emergency side rs \<in> set (values_found Emergency side rs)"
    using assms last_found_cases by blast
  then obtain x where "search_hours x = Some (last_found Emergency side rs)"
    using values_found_member by fastforce
  then show ?thesis by (rule search_hours_digits)
qed

lemma hours_meet_digits:
  assumes "dh \<noteq> ''N/A'' \<longrightarrow> dh \<noteq> [] \<and> list_all is_digit dh"
      and "rh \<noteq> ''N/A'' \<longrightarrow> rh \<noteq> [] \<and> list_all is_digit rh"
  shows "hours_meet dh rh =
     Inr (dh \<noteq> ''N/A'' \<and> rh \<noteq> ''N/A'' \<and> float_ge (float_of_digits dh) (float_of_digits rh))"
  using assms by (simp add: hours_meet_def py_float_def)

section \<open>The rounding error of a percentage\<close>

lemma pow2_power_int: "pow2 k = power_int 2 k"
  by (simp add: pow2_def power_int_def inverse_eq_divide power_one_over)

lemma pow2_pos: "0 < pow2 k"
  by (simp add: pow2_power_int)

lemma pow2_diff: "pow2 (a - b) = pow2 a / pow2 b"
  by (simp add: pow2_power_int power_int_diff)

lemma pow2_nat: "0 \<le> k \<Longrightarrow> pow2 k = of_int (2 ^ nat k)"
  by (simp add: pow2_def)

lemma bit_length_bounds:
  "0 < n \<Longrightarrow> 1 \<le> bit_length n \<and> 2 ^ nat (bit_length n - 1) \<le> n \<and> n < 2 ^ nat (bit_length n)"
proof (induction n rule: bit_length.induct)
  case (1 n)
  have bl: "bit_length n = 1 + bit_length (n div 2)"
    using "1.prems" by (subst bit_length.simps) simp
  show ?case
  proof (cases "n div 2 = 0")
    case True
    then have "n = 1" using "1.prems" by auto
    then show ?thesis by (simp add: bit_length_one)
  next
    case False
    then have pos: "0 < n div 2" using "1.prems" by auto
    have "\<not> n \<le> 0" using "1.prems" by simp
    from "1.IH" [OF this pos]
    have ih: "1 \<le> bit_length (n div 2)"
        "2 ^ nat (bit_length (n div 2) - 1) \<le> n div 2"
        "n div 2 < 2 ^ nat (bit_length (n div 2))"
      by simp_all
    define b where "b = bit_length (n div 2)"
    have nb: "nat b = Suc (nat (b - 1))" using ih(1) by (simp add: b_def)
    have lower: "2 ^ nat b \<le> n"
    proof -
      have "(2::int) ^ nat b = 2 * 2 ^ nat (b - 1)" by (simp add: nb)
      also have "\<dots> \<le> 2 * (n div 2)" using ih(2) by (simp add: b_def)
      also have "\<dots> \<le> n" by simp
      finally show ?thesis .
    qed
    have upper: "n < 2 ^ nat (1 + b)"
    proof -
      have "n < 2 * (n div 2) + 2" by presburger
      also have "\<dots> \<le> 2 * 2 ^ nat b" using ih(3) by (simp add: b_def)
      also have "\<dots> = 2 ^ nat (1 + b)" using ih(1) by (simp add: b_def nat_add_distrib)
      finally show ?thesis .
    qed
    show ?thesis using ih(1) lower upper by (simp add: bl b_def)
  qed
qed

lemma floor_log2_le:
  assumes "0 < x"
  shows "pow2 (floor_log2 x) \<le> x"
proof -
  obtain p q where pq: "quotient_of x = (p, q)" by (cases "quotient_of x")
  have q: "0 < q" using pq by (rule quotient_of_denom_pos)
  have x: "x = of_int p / of_int q" using pq by (rule quotient_of_div)
  have p: "0 < p" using assms q x by (simp add: zero_less_divide_iff)
  define k where "k = bit_length p - bit_length q"
  show ?thesis
  proof (cases "pow2 k \<le> x")
    case True
    then show ?thesis by (simp add: floor_log2_def pq Let_def k_def)
  next
    case False
    then have fl: "floor_log2 x = (bit_length p - 1) - bit_length q"
      by (simp add: floor_log2_def pq Let_def k_def)
    note bp = bit_length_bounds [OF p]
    note bq = bit_length_bounds [OF q]
    have a: "pow2 (bit_length p - 1) \<le> of_int p"
    proof -
      have "pow2 (bit_length p - 1) = of_int (2 ^ nat (bit_length p - 1))"
        using bp by (intro pow2_nat) simp
      also have "\<dots> \<le> of_int p" using bp by (simp only: of_int_le_iff)
      finally show ?thesis .
    qed
    have b: "of_int q \<le> pow2 (bit_length q)"
    proof -
      have "(of_int q :: rat) \<le> of_int (2 ^ nat (bit_length q))"
        using bq by (simp only: of_int_le_iff) simp
      also have "\<dots> = pow2 (bit_length q)"
        using bq by (intro pow2_nat [symmetric]) simp
      finally show ?thesis .
    qed
    have "pow2 (floor_log2 x) = pow2 (bit_length p - 1) / pow2 (bit_length q)"
      by (simp only: fl pow2_diff)
    also have "\<dots> \<le> of_int p / of_int q"
    proof (rule frac_le)
      show "(0::rat) \<le> of_int p" using p by simp
      show "pow2 (bit_length p - 1) \<le> of_int p" by (rule a)
      show "(0::rat) < of_int q" using q by simp
      show "of_int q \<le> pow2 (bit_length q)" by (rule b)
    qed
    finally show ?thesis by (simp only: x)
  qed
qed

lemma round_half_even_near: "\<bar>of_int (round_half_even y) - y\<bar> \<le> 1 / 2"
proof -
  define f where "f = \<lfloor>y\<rfloor>"
  define d where "d = y - of_int f"
  have "of_int f \<le> y \<and> y < of_int (f + 1)"
    unfolding f_def by (rule floor_correct)
  then have d: "0 \<le> d" "d < 1" by (simp_all add: d_def)
  have y: "y = of_int f + d" by (simp add: d_def)
  have r: "round_half_even y =
      (if d < 1 / 2 then f else if 1 / 2 < d then f + 1 else if even f then f else f + 1)"
    by (simp add: round_half_even_def Let_def f_def d_def)
  have "\<bar>of_int (round_half_even y) - (of_int f + d)\<bar> \<le> 1 / 2"
    unfolding r using d by (auto simp: abs_if)
  then show ?thesis by (simp add: d_def)
qed

lemma round_half_even_nonneg: "0 \<le> y \<Longrightarrow> 0 \<le> round_half_even y"
  by (auto simp: round_half_even_def Let_def)

text \<open>
  Rounding to binary64 keeps a non-negative value within the relative error \<open>2\<^sup>-\<^sup>5\<^sup>3\<close>,
  or within half the least subnormal.
\<close>

lemma to_double_error:
  assumes "0 \<le> x"
  shows "0 \<le> to_double x \<and> \<bar>to_double x - x\<bar> \<le> x / 2 ^ 53 + 1 / 2 ^ 1075"
proof (cases "x = 0")
  case True
  then show ?thesis by (simp add: to_double_def)
next
  case False
  then have pos: "0 < x" using assms by simp
  define e where "e = max (floor_log2 x - 52) (- 1074)"
  define y where "y = x / pow2 e"
  define m where "m = round_half_even y"
  have pe: "0 < pow2 e" by (rule pow2_pos)
  have td: "to_double x = of_int m * pow2 e"
    using False by (simp add: to_double_def Let_def e_def y_def m_def)
  have y0: "0 \<le> y" using pos pe by (simp add: y_def)
  have m0: "0 \<le> m" unfolding m_def using y0 by (rule round_half_even_nonneg)
  have near: "\<bar>of_int m - y\<bar> \<le> 1 / 2" unfolding m_def by (rule round_half_even_near)
  have xy: "y * pow2 e = x" using pe by (simp add: y_def)
  have "of_int m * pow2 e - y * pow2 e = (of_int m - y) * pow2 e"
    by (simp add: algebra_simps)
  then have "to_double x - x = (of_int m - y) * pow2 e"
    by (simp only: td xy)
  then have "\<bar>to_double x - x\<bar> = \<bar>of_int m - y\<bar> * pow2 e"
    using pe by (simp add: abs_mult)
  also have "\<dots> \<le> (1 / 2) * pow2 e"
    using near pe by (intro mult_right_mono) simp_all
  finally have err: "\<bar>to_double x - x\<bar> \<le> pow2 e / 2" by simp
  have bound: "pow2 e / 2 \<le> x / 2 ^ 53 + 1 / 2 ^ 1075"
  proof (cases "- 1074 \<le> floor_log2 x - 52")
    case True
    then have "e = floor_log2 x - 52" by (simp add: e_def)
    then have "pow2 e = pow2 (floor_log2 x) / pow2 52" by (simp add: pow2_diff)
    moreover have "pow2 52 = 2 ^ 52" by (simp add: pow2_def)
    ultimately have "pow2 e / 2 = pow2 (floor_log2 x) / 2 ^ 53" by simp
    also have "\<dots> \<le> x / 2 ^ 53"
      using floor_log2_le [OF pos] by (intro divide_right_mono) simp_all
    finally show ?thesis by (simp add: add_increasing2)
  next
    case False
    then have "e = - 1074" by (simp add: e_def)
    then have "pow2 e / 2 = 1 / 2 ^ 1075" by (simp add: pow2_def)
    then show ?thesis using pos by simp
  qed
  have "0 \<le> to_double x" using m0 pe by (simp add: td)
  then show ?thesis using err bound by simp
qed

text \<open>
  The float \<^verbatim>\<open>a / b * 100\<close> is the quotient times 100, up to the two roundings.
\<close>

lemma percentage_error:
  assumes "0 \<le> a" and "a \<le> b" and "0 < b"
  shows "\<bar>percentage a b - 100 * of_int a / of_int b\<bar> \<le> 1 / 2 ^ 44"
proof -
  define eps :: rat where "eps = 1 / 2 ^ 53"
  define dl :: rat where "dl = 1 / 2 ^ 1075"
  define x :: rat where "x = of_int a / of_int b"
  define x1 where "x1 = to_double x"
  define x2 where "x2 = to_double (x1 * 100)"
  have x0: "0 \<le> x" using assms by (simp add: x_def)
  have x1le: "x \<le> 1" using assms by (simp add: x_def)
  have eps: "0 < eps" "eps \<le> 1" by (simp_all add: eps_def)
  have "(2::rat) ^ 53 \<le> 2 ^ 1075" by (rule power_increasing) simp_all
  then have dl: "0 < dl" "dl \<le> eps"
    unfolding dl_def eps_def by (simp_all add: frac_le)
  have r1: "0 \<le> x1" "\<bar>x1 - x\<bar> \<le> x * eps + dl"
    using to_double_error [OF x0] by (simp_all add: x1_def eps_def dl_def)
  have "0 \<le> x1 * 100" using r1(1) by simp
  from to_double_error [OF this]
  have r2: "\<bar>x2 - x1 * 100\<bar> \<le> x1 * 100 * eps + dl"
    by (simp add: x2_def eps_def dl_def)
  have xe: "x * eps \<le> eps" using x1le eps by (simp add: mult_left_le_one_le x0)
  have "x1 \<le> x + (x * eps + dl)" using r1(2) by (simp add: abs_le_iff)
  then have "x1 \<le> 3" using x1le xe dl eps by linarith
  then have x1e: "x1 * eps \<le> 3 * eps" using eps by (intro mult_right_mono) simp_all
  have a: "x1 - x \<le> x * eps + dl" "x - x1 \<le> x * eps + dl"
    using r1(2) by (simp_all only: abs_le_iff) simp_all
  have "x1 * 100 * eps = 100 * (x1 * eps)" by simp
  then have "\<bar>x2 - x1 * 100\<bar> \<le> 100 * (x1 * eps) + dl" using r2 by simp
  then have b: "x2 - x1 * 100 \<le> 100 * (x1 * eps) + dl" "x1 * 100 - x2 \<le> 100 * (x1 * eps) + dl"
    by (simp_all only: abs_le_iff) simp_all
  have "x2 - 100 * x \<le> 512 * eps" using a b x1e xe dl by linarith
  moreover have "- (x2 - 100 * x) \<le> 512 * eps" using a b x1e xe dl by linarith
  ultimately have "\<bar>x2 - 100 * x\<bar> \<le> 512 * eps" by (simp only: abs_le_iff)
  also have "\<dots> = 1 / 2 ^ 44" by (simp add: eps_def)
  finally show ?thesis by (simp add: percentage_def x2_def x1_def x_def)
qed

section \<open>The compliance score\<close>

lemma compliant_count_le: "compliant_count rs \<le> length rs"
  by (simp add: compliant_count_def)

lemma format_zero: "format_1f 0 = ''0.0''"
  by code_simp

lemma format_quarter: "format_1f (percentage 1 4) = ''25.0''"
  by code_simp

lemma str_three: "str_int 3 = ''3''"
  by code_simp

lemma sample_extraction:
  "extract_loop initial_extraction sample_batch
     = Inr (initial_extraction\<lparr> re_bound := True, required_thickness := ''50'',
              design_thickness := ''45'', required_seismic := ''0.35'',
              design_seismic := ''0.25'', required_hours := ''72'', design_hours := ''96'' \<rparr>)"
  by code_simp

lemma sample_counts: "length sample_batch = 4 \<and> compliant_count sample_batch = 1"
  by code_simp

lemma score_question: "question_topic ''what is the compliance score'' = Some ComplianceTopic"
  by code_simp

text \<open>
  Whenever the call returns, a response for the compliance topic shows the percentage
  \<^verbatim>\<open>compliant_count / total_count * 100\<close> of the batch with one decimal (0.0 for the empty
  batch) and the number of issues \<^verbatim>\<open>total_count - compliant_count\<close>; for a batch of 4
  results of which exactly 1 has the status \<^verbatim>\<open>Compliant\<close> it shows 25.0 and 3.
\<close>

lemma compliance_score_when_returning:
  assumes "question_topic q = Some ComplianceTopic"
      and "chat_with_documents q d r rs = Inr resp"
  shows "resp = ''Based on the analysis, the overall compliance score is ''
                @ (if rs = [] then ''0.0''
                   else format_1f (percentage (int (compliant_count rs)) (int (length rs))))
                @ ''%. '' @ str_int (int (length rs) - int (compliant_count rs))
                @ '' issues were found.''
       \<and> (length rs = 4 \<and> compliant_count rs = 1 \<longrightarrow>
            resp = ''Based on the analysis, the overall compliance score is 25.0%. 3 issues were found.'')"
proof -
  obtain st where "respond q rs st = Inr resp"
    using assms(2) unfolding chat_Inr by blast
  then have resp: "resp = compliance_response (score_text rs) (str_int (int (issues_count rs)))"
    using assms(1) by (simp add: respond_by_topic)
  have score: "score_text rs =
      (if rs = [] then ''0.0''
       else format_1f (percentage (int (compliant_count rs)) (int (length rs))))"
    by (simp add: score_text_def format_zero)
  have issues: "int (issues_count rs) = int (length rs) - int (compliant_count rs)"
    using compliant_count_le [of rs] by (simp add: issues_count_def compliant_count_def)
  have general: "resp = ''Based on the analysis, the overall compliance score is ''
                @ (if rs = [] then ''0.0''
                   else format_1f (percentage (int (compliant_count rs)) (int (length rs))))
                @ ''%. '' @ str_int (int (length rs) - int (compliant_count rs))
                @ '' issues were found.''"
    unfolding resp score issues by (simp add: compliance_response_def)
  have scenario: "resp = ''Based on the analysis, the overall compliance score is 25.0%. 3 issues were found.''"
    if "length rs = 4" and "compliant_count rs = 1"
  proof -
    have "rs \<noteq> []" using that(1) by auto
    then have "resp = ''Based on the analysis, the overall compliance score is ''
                @ format_1f (percentage 1 4) @ ''%. '' @ str_int 3 @ '' issues were found.''"
      using general that by simp
    then show ?thesis
      unfolding format_quarter str_three by simp
  qed
  show ?thesis using general scenario by blast
qed

lemma sample_score_response:
  "chat_with_documents ''what is the compliance score'' d r sample_batch
     = Inr ''Based on the analysis, the overall compliance score is 25.0%. 3 issues were found.''"
proof -
  obtain resp where chat:
    "chat_with_documents ''what is the compliance score'' d r sample_batch = Inr resp"
    unfolding chat_with_documents_def sample_extraction
    by (simp add: respond_by_topic score_question)
  have "length sample_batch = 4 \<and> compliant_count sample_batch = 1 \<longrightarrow>
      resp = ''Based on the analysis, the overall compliance score is 25.0%. 3 issues were found.''"
    using compliance_score_when_returning [OF score_question chat] by (rule conjunct2)
  then show ?thesis using chat sample_counts by simp
qed

lemma reordered_counts: "length reordered_batch = 4 \<and> compliant_count reordered_batch = 1"
  by code_simp

text \<open>
  C4. The claim fails on a batch of 4 results, exactly 1 of them \<^verbatim>\<open>Compliant\<close>, whose
  first record is the seismic result: the loop over the batch, which runs before the
  score is rendered, raises \<^verbatim>\<open>UnboundLocalError\<close>, so no percentage and no issue count
  are reported. On the same four results with the insulation result first the response
  shows 25.0 and 3.
\<close>

theorem compliance_score_missing_on_reordered_batch:
  "length reordered_batch = 4 \<and> compliant_count reordered_batch = 1
   \<and> question_topic ''what is the compliance score'' = Some ComplianceTopic
   \<and> chat_with_documents ''what is the compliance score'' design_text regulations_text
        reordered_batch = Inl UnboundLocalError
   \<and> chat_with_documents ''what is the compliance score'' design_text regulations_text
        sample_batch
       = Inr ''Based on the analysis, the overall compliance score is 25.0%. 3 issues were found.''"
proof -
  have "chat_with_documents ''what is the compliance score'' design_text regulations_text
        reordered_batch = Inl UnboundLocalError"
    by (simp add: reordered_batch_def chat_with_documents_def step_seismic_unbound)
  then show ?thesis
    using reordered_counts score_question sample_score_response by simp
qed

section \<open>The pump count\<close>

lemma values_found_empty:
  "(\<And>r. r \<in> set rs \<Longrightarrow> value_of_record c side r = None) \<Longrightarrow> values_found c side rs = []"
  by (induction rs) (simp_all add: values_found_def map_filter_simps)

lemma pumps_question: "question_topic ''how many pumps'' = Some PumpsTopic"
  by code_simp

lemma sample_pumps_counted:
  "extract_loop initial_extraction [result_insulation, result_pumps_counted]
     = Inr (after_insulation\<lparr> design_pumps := ''2'' \<rparr>)"
  by code_simp

lemma values_found_source:
  "v \<in> set (values_found c side rs) \<Longrightarrow>
     \<exists>x \<in> set rs. first_matching_category (regulation_side x) = Some c
        \<and> category_search c (side x) = Some v"
  by (auto simp: values_found_def map_filter_def value_of_record_eq split: if_splits)

lemma tails_set: "t \<in> set (tails s) \<longleftrightarrow> (\<exists>pre. s = pre @ t)"
proof (induction s)
  case Nil
  then show ?case by auto
next
  case (Cons c cs)
  show ?case
  proof
    assume "t \<in> set (tails (c # cs))"
    then consider "t = c # cs" | "t \<in> set (tails cs)" by auto
    then show "\<exists>pre. c # cs = pre @ t"
    proof cases
      case 1
      then have "c # cs = [] @ t" by simp
      then show ?thesis by blast
    next
      case 2
      then obtain pre where "cs = pre @ t" using Cons.IH by blast
      then have "c # cs = (c # pre) @ t" by simp
      then show ?thesis by blast
    qed
  next
    assume "\<exists>pre. c # cs = pre @ t"
    then obtain pre where eq: "c # cs = pre @ t" by blast
    show "t \<in> set (tails (c # cs))"
    proof (cases pre)
      case Nil
      then have "t = c # cs" using eq by simp
      then show ?thesis by simp
    next
      case (Cons a pre')
      then have "cs = pre' @ t" using eq by simp
      then have "t \<in> set (tails cs)" using Cons.IH by blast
      then show ?thesis by simp
    qed
  qed
qed

lemma count_before_token_check_iff:
  "count_before_token g s \<longleftrightarrow> count_before_token_check g s"
proof
  assume "count_before_token g s"
  then obtain pre ws tok post where s: "s = pre @ g @ ws @ tok @ post" "g \<noteq> []"
      "list_all is_digit g" "list_all is_space ws"
      "tok \<in> set [''independent'', ''separate'']"
    unfolding count_before_token_def by auto
  have "g @ ws @ tok @ post \<in> set (tails s)"
    unfolding tails_set using s(1) by blast
  moreover have "starts_with g (g @ ws @ tok @ post)"
    by (simp add: starts_with_iff)
  moreover have "seq_ends [Many0 is_space, AnyOf [''independent'', ''separate'']]
      (drop (length g) (g @ ws @ tok @ post)) \<noteq> []"
    unfolding spaces_then_token using s(4,5) by auto
  ultimately show "count_before_token_check g s"
    unfolding count_before_token_check_def list_ex_iff using s(2,3) by blast
next
  assume "count_before_token_check g s"
  then obtain t where g: "g \<noteq> []" "list_all is_digit g" and t: "t \<in> set (tails s)"
      "starts_with g t"
      "seq_ends [Many0 is_space, AnyOf [''independent'', ''separate'']]
         (drop (length g) t) \<noteq> []"
    unfolding count_before_token_check_def list_ex_iff by blast
  obtain pre where pre: "s = pre @ t" using t(1) unfolding tails_set by blast
  obtain rest where rest: "t = g @ rest" using t(2) unfolding starts_with_iff by blast
  then have "seq_ends [Many0 is_space, AnyOf [''independent'', ''separate'']] rest \<noteq> []"
    using t(3) by simp
  then obtain ws tok post where "rest = ws @ tok @ post" "list_all is_space ws"
      "tok \<in> set [''independent'', ''separate'']"
    unfolding spaces_then_token by blast
  then show "count_before_token g s"
    unfolding count_before_token_def using pre rest g by auto
qed

lemma sample_pumps_mixed:
  "extract_loop initial_extraction [result_insulation, result_pumps_mixed]
     = Inr (after_insulation\<lparr> required_pumps := ''2'' \<rparr>)"
  by code_simp

text \<open>
  The claim C7 as it is stated fails: the regulation text of the record below contains the
  pump count \<^verbatim>\<open>3 pumps\<close>, which is not next to either token, and yet a value is extracted
  from it, the 2 before \<^verbatim>\<open>separate\<close>, and the response shows it instead of \<^verbatim>\<open>N/A\<close>.
\<close>

theorem pump_count_apart_still_extracts:
  "contains ''3 pumps'' (regulation_side result_pumps_mixed)
   \<and> \<not> count_before_token ''3'' (regulation_side result_pumps_mixed)
   \<and> search_pumps (regulation_side result_pumps_mixed) = Some ''2''
   \<and> chat_with_documents ''how many pumps'' [] [] [result_insulation, result_pumps_mixed]
       = Inr ''The containment spray system has N/A pumps, while regulations require minimum 2 pumps.''"
proof -
  have "contains ''3 pumps'' (regulation_side result_pumps_mixed)"
    by code_simp
  moreover have "\<not> count_before_token_check ''3'' (regulation_side result_pumps_mixed)"
    by code_simp
  moreover have "search_pumps (regulation_side result_pumps_mixed) = Some ''2''"
    by code_simp
  moreover have
    "chat_with_documents ''how many pumps'' [] [] [result_insulation, result_pumps_mixed]
       = Inr ''The containment spray system has N/A pumps, while regulations require minimum 2 pumps.''"
    unfolding chat_with_documents_def sample_pumps_mixed
    by (simp add: respond_by_topic pumps_question after_insulation_def initial_extraction_def
          pumps_response_def)
  ultimately show ?thesis by (simp add: count_before_token_check_iff)
qed

text \<open>
  C7, amended. The pumps pattern extracts a number from a (lower-cased) text only where
  a run of digits is followed, with nothing but whitespace in between, by
  \<^verbatim>\<open>independent\<close> or \<^verbatim>\<open>separate\<close>, and it extracts one exactly when the text has such a
  place, whether or not those digits are the pump count. Whenever the call returns a
  response for the pumps topic, the response is the pumps sentence with the last values
  found in the pumps records of the batch; a slot shows a value only if that value stands
  before a token in the text of a pumps record, and it shows \<^verbatim>\<open>N/A\<close> when no pumps
  record of the batch has digits before a token in the text of that side.
\<close>

theorem pump_count_needs_adjacent_token:
  "(search_pumps s = Some g \<longrightarrow> count_before_token g s)
   \<and> ((\<exists>g. search_pumps s = Some g) \<longleftrightarrow> (\<exists>g. count_before_token g s))
   \<and> (chat_with_documents q d r rs = Inr resp \<and> question_topic q = Some PumpsTopic \<longrightarrow>
        resp = ''The containment spray system has '' @ last_found Pumps design_side rs
               @ '' pumps, while regulations require minimum ''
               @ last_found Pumps regulation_side rs @ '' pumps.'')
   \<and> (last_found Pumps side rs \<noteq> ''N/A'' \<longrightarrow>
        (\<exists>x \<in> set rs. first_matching_category (regulation_side x) = Some Pumps
           \<and> count_before_token (last_found Pumps side rs) (side x)))
   \<and> ((\<forall>x \<in> set rs. first_matching_category (regulation_side x) = Some Pumps \<longrightarrow>
          (\<forall>g. \<not> count_before_token g (side x))) \<longrightarrow>
        last_found Pumps side rs = ''N/A'')"
proof -
  have only: "count_before_token g s" if "search_pumps s = Some g"
    using that by (rule search_pumps_Some)
  have iff: "(\<exists>g. search_pumps s = Some g) \<longleftrightarrow> (\<exists>g. count_before_token g s)"
  proof
    assume "\<exists>g. search_pumps s = Some g"
    then show "\<exists>g. count_before_token g s" using search_pumps_Some by blast
  next
    assume "\<exists>g. count_before_token g s"
    then have "search_pumps s \<noteq> None" using search_pumps_None by blast
    then show "\<exists>g. search_pumps s = Some g" by auto
  qed
  have resp: "resp = ''The containment spray system has '' @ last_found Pumps design_side rs
               @ '' pumps, while regulations require minimum ''
               @ last_found Pumps regulation_side rs @ '' pumps.''"
    if chat: "chat_with_documents q d r rs = Inr resp"
      and topic: "question_topic q = Some PumpsTopic"
    using pumps_response_values [OF chat topic] by (simp add: pumps_response_def)
  have source: "\<exists>x \<in> set rs. first_matching_category (regulation_side x) = Some Pumps
           \<and> count_before_token (last_found Pumps side rs) (side x)"
    if "last_found Pumps side rs \<noteq> ''N/A''"
  proof -
    have "last_found Pumps side rs \<in> set (values_found Pumps side rs)"
      using that last_found_cases by blast
    then obtain x where x: "x \<in> set rs"
        "first_matching_category (regulation_side x) = Some Pumps"
        "search_pumps (side x) = Some (last_found Pumps side rs)"
      using values_found_source by fastforce
    have "count_before_token (last_found Pumps side rs) (side x)"
      using x(3) by (rule search_pumps_Some)
    then show ?thesis using x(1,2) by blast
  qed
  have slot: "last_found Pumps side rs = ''N/A''"
    if "\<forall>x \<in> set rs. first_matching_category (regulation_side x) = Some Pumps \<longrightarrow>
          (\<forall>g. \<not> count_before_token g (side x))"
    using that source by blast
  show ?thesis using only iff resp source slot by blast
qed

theorem pump_count_needs_adjacent_token_witness:
  "search_pumps (regulation_side result_pumps_counted) = None
   \<and> search_pumps (design_side result_pumps_counted) = Some ''2''
   \<and> count_before_token ''2'' (design_side result_pumps_counted)
   \<and> question_topic ''how many pumps'' = Some PumpsTopic
   \<and> last_found Pumps design_side [result_insulation, result_pumps_counted] = ''2''
   \<and> last_found Pumps regulation_side [result_insulation, result_pumps_counted] = ''N/A''
   \<and> chat_with_documents ''how many pumps'' [] [] [result_insulation, result_pumps_counted]
       = Inr ''The containment spray system has 2 pumps, while regulations require minimum N/A pumps.''"
proof -
  let ?rs = "[result_insulation, result_pumps_counted]"
  have reg: "search_pumps (regulation_side result_pumps_counted) = None"
    by code_simp
  have des: "search_pumps (design_side result_pumps_counted) = Some ''2''"
    by code_simp
  have lf: "last_found Pumps design_side ?rs = ''2''"
      "last_found Pumps regulation_side ?rs = ''N/A''"
    by code_simp+
  obtain resp where chat: "chat_with_documents ''how many pumps'' [] [] ?rs = Inr resp"
    unfolding chat_with_documents_def sample_pumps_counted
    by (simp add: respond_by_topic pumps_question)
  note main = pump_count_needs_adjacent_token
  have a: "count_before_token ''2'' (design_side result_pumps_counted)"
    using main [of "design_side result_pumps_counted" "''2''"] des by blast
  have "resp = ''The containment spray system has '' @ last_found Pumps design_side ?rs
               @ '' pumps, while regulations require minimum ''
               @ last_found Pumps regulation_side ?rs @ '' pumps.''"
    using main [of _ _ "''how many pumps''" "[]" "[]" ?rs resp] chat pumps_question by blast
  then have "resp = ''The containment spray system has 2 pumps, while regulations require minimum N/A pumps.''"
    unfolding lf by simp
  then show ?thesis using reg des a chat lf pumps_question by simp
qed

section \<open>The emergency power topic\<close>

lemma hours_question: "question_topic ''how many hours'' = Some EmergencyTopic"
  by code_simp

lemma sample_emergency_short:
  "extract_loop initial_extraction [result_insulation, result_emergency_short]
     = Inr (after_insulation\<lparr> required_hours := ''10'', design_hours := ''9'' \<rparr>)"
  by code_simp

lemma nine_and_ten:
  "list_all is_digit ''9'' \<and> int_of_digits ''9'' = 9
   \<and> list_all is_digit ''10'' \<and> int_of_digits ''10'' = 10"
  by code_simp

lemma emergency_answer:
  assumes "question_topic q = Some EmergencyTopic"
      and "extract_loop initial_extraction rs = Inr st"
  shows "chat_with_documents q d r rs =
           Inr (emergency_response (design_hours st)
                  (if design_hours st \<noteq> ''N/A'' \<and> required_hours st \<noteq> ''N/A''
                      \<and> float_ge (float_of_digits (design_hours st))
                            (float_of_digits (required_hours st))
                   then ''meets'' else ''does not meet'')
                  (required_hours st))"
proof -
  have dh: "design_hours st \<noteq> ''N/A'' \<longrightarrow>
      design_hours st \<noteq> [] \<and> list_all is_digit (design_hours st)"
    using slots_are_last_found(1) [OF assms(2), of Emergency]
      hours_slot_digits [of design_side rs]
    by simp
  have rh: "required_hours st \<noteq> ''N/A'' \<longrightarrow>
      required_hours st \<noteq> [] \<and> list_all is_digit (required_hours st)"
    using slots_are_last_found(2) [OF assms(2), of Emergency]
      hours_slot_digits [of regulation_side rs]
    by simp
  have "chat_with_documents q d r rs = respond q rs st"
    using assms(2) by (simp add: chat_with_documents_def)
  then show ?thesis
    using assms(1) by (simp add: respond_by_topic hours_meet_digits [OF dh rh])
qed

text \<open>
  When the loop over the batch completes, a question of the emergency power topic is
  answered, and the answer states \<^verbatim>\<open>meets\<close> exactly when neither hours value is
  \<^verbatim>\<open>N/A\<close> and the design value is at least the required value, both compared as the
  floats that \<^verbatim>\<open>float\<close> parses from the digits; for values below \<open>2 ^ 53\<close> the floats
  are the integers themselves.
\<close>

lemma emergency_answer_compares_numbers:
  assumes "question_topic q = Some EmergencyTopic"
      and "extract_loop initial_extraction rs = Inr st"
  shows "chat_with_documents q d r rs =
           Inr (''The emergency cooling system can operate for '' @ design_hours st
                @ '' hours without external power, which ''
                @ (if design_hours st \<noteq> ''N/A'' \<and> required_hours st \<noteq> ''N/A''
                      \<and> float_ge (float_of_digits (design_hours st))
                            (float_of_digits (required_hours st))
                   then ''meets'' else ''does not meet'')
                @ '' the required '' @ required_hours st @ '' hours.'')
       \<and> (design_hours st \<noteq> ''N/A'' \<and> required_hours st \<noteq> ''N/A''
            \<and> int_of_digits (design_hours st) < 2 ^ 53
            \<and> int_of_digits (required_hours st) < 2 ^ 53 \<longrightarrow>
          float_ge (float_of_digits (design_hours st)) (float_of_digits (required_hours st))
            = (int_of_digits (required_hours st) \<le> int_of_digits (design_hours st)))"
proof -
  have dh: "design_hours st \<noteq> ''N/A'' \<longrightarrow>
      design_hours st \<noteq> [] \<and> list_all is_digit (design_hours st)"
    using slots_are_last_found(1) [OF assms(2), of Emergency]
      hours_slot_digits [of design_side rs]
    by simp
  have rh: "required_hours st \<noteq> ''N/A'' \<longrightarrow>
      required_hours st \<noteq> [] \<and> list_all is_digit (required_hours st)"
    using slots_are_last_found(2) [OF assms(2), of Emergency]
      hours_slot_digits [of regulation_side rs]
    by simp
  have answer: "chat_with_documents q d r rs =
           Inr (''The emergency cooling system can operate for '' @ design_hours st
                @ '' hours without external power, which ''
                @ (if design_hours st \<noteq> ''N/A'' \<and> required_hours st \<noteq> ''N/A''
                      \<and> float_ge (float_of_digits (design_hours st))
                            (float_of_digits (required_hours st))
                   then ''meets'' else ''does not meet'')
                @ '' the required '' @ required_hours st @ '' hours.'')"
    unfolding emergency_answer [OF assms, of d r] by (simp add: emergency_response_def)
  have exact: "float_ge (float_of_digits (design_hours st)) (float_of_digits (required_hours st))
            = (int_of_digits (required_hours st) \<le> int_of_digits (design_hours st))"
    if "design_hours st \<noteq> ''N/A''" "required_hours st \<noteq> ''N/A''"
      "int_of_digits (design_hours st) < 2 ^ 53" "int_of_digits (required_hours st) < 2 ^ 53"
  proof (rule float_ge_exact)
    show "list_all is_digit (design_hours st)" using dh that(1) by blast
    show "list_all is_digit (required_hours st)" using rh that(2) by blast
    show "int_of_digits (design_hours st) < 2 ^ 53" by (rule that(3))
    show "int_of_digits (required_hours st) < 2 ^ 53" by (rule that(4))
  qed
  show ?thesis using answer exact by blast
qed

lemma sample_emergency_pair:
  "extract_loop initial_extraction [result_insulation, result_emergency]
     = Inr (after_insulation\<lparr> required_hours := ''72'', design_hours := ''96'' \<rparr>)"
  by code_simp

lemma sample_emergency_equal:
  "extract_loop initial_extraction [result_insulation, result_emergency_equal]
     = Inr (after_insulation\<lparr> required_hours := ''72'', design_hours := ''72'' \<rparr>)"
  by code_simp

lemma sample_hours_digits:
  "list_all is_digit ''96'' \<and> int_of_digits ''96'' = 96
   \<and> list_all is_digit ''72'' \<and> int_of_digits ''72'' = 72"
  by code_simp

lemma emergency_sample_answers:
  "chat_with_documents ''how many hours'' d r [result_insulation, result_emergency]
     = Inr ''The emergency cooling system can operate for 96 hours without external power, which meets the required 72 hours.''"
  "chat_with_documents ''how many hours'' d r [result_insulation, result_emergency_equal]
     = Inr ''The emergency cooling system can operate for 72 hours without external power, which meets the required 72 hours.''"
  "chat_with_documents ''how many hours'' d r [result_insulation, result_emergency_short]
     = Inr ''The emergency cooling system can operate for 9 hours without external power, which does not meet the required 10 hours.''"
proof -
  note a = emergency_answer_compares_numbers [OF hours_question sample_emergency_pair, of d r]
  have "float_ge (float_of_digits ''96'') (float_of_digits ''72'')"
    using a sample_hours_digits by simp
  then show "chat_with_documents ''how many hours'' d r [result_insulation, result_emergency]
     = Inr ''The emergency cooling system can operate for 96 hours without external power, which meets the required 72 hours.''"
    using a by simp
  note b = emergency_answer_compares_numbers [OF hours_question sample_emergency_equal, of d r]
  have "float_ge (float_of_digits ''72'') (float_of_digits ''72'')"
    using b sample_hours_digits by simp
  then show "chat_with_documents ''how many hours'' d r [result_insulation, result_emergency_equal]
     = Inr ''The emergency cooling system can operate for 72 hours without external power, which meets the required 72 hours.''"
    using b by simp
  note c = emergency_answer_compares_numbers [OF hours_question sample_emergency_short, of d r]
  have "\<not> float_ge (float_of_digits ''9'') (float_of_digits ''10'')"
    using c nine_and_ten by simp
  then show "chat_with_documents ''how many hours'' d r [result_insulation, result_emergency_short]
     = Inr ''The emergency cooling system can operate for 9 hours without external power, which does not meet the required 10 hours.''"
    using c by simp
qed

text \<open>
  C5. The claim fails on the batch that holds only the emergency power result of the
  benchmark, with 96 hours designed and 72 hours required: the loop over the batch raises
  \<^verbatim>\<open>UnboundLocalError\<close> and the question about the hours gets no answer, neither
  \<^verbatim>\<open>meets\<close> nor \<^verbatim>\<open>does not meet\<close>. With the insulation result before it the answer is
  \<^verbatim>\<open>meets\<close>, as it is for 72 designed and 72 required hours, and for 9 designed and 10
  required hours it is \<^verbatim>\<open>does not meet\<close>, though the string \<^verbatim>\<open>9\<close> is greater than the
  string \<^verbatim>\<open>10\<close>.
\<close>

theorem emergency_answer_missing_on_emergency_record:
  "question_topic ''how many hours'' = Some EmergencyTopic
   \<and> chat_with_documents ''how many hours'' design_text regulations_text [result_emergency]
       = Inl UnboundLocalError
   \<and> chat_with_documents ''how many hours'' design_text regulations_text
        [result_insulation, result_emergency]
       = Inr ''The emergency cooling system can operate for 96 hours without external power, which meets the required 72 hours.''
   \<and> chat_with_documents ''how many hours'' design_text regulations_text
        [result_insulation, result_emergency_equal]
       = Inr ''The emergency cooling system can operate for 72 hours without external power, which meets the required 72 hours.''
   \<and> chat_with_documents ''how many hours'' design_text regulations_text
        [result_insulation, result_emergency_short]
       = Inr ''The emergency cooling system can operate for 9 hours without external power, which does not meet the required 10 hours.''"
proof -
  have "chat_with_documents ''how many hours'' design_text regulations_text [result_emergency]
       = Inl UnboundLocalError"
    by (simp add: chat_with_documents_def step_emergency_unbound)
  then show ?thesis
    using hours_question emergency_sample_answers [of design_text regulations_text] by simp
qed

section \<open>The benchmark scores\<close>

lemma cases_of_category_Cons:
  "cases_of_category k (c # cs) =
     (if category_key c = k then c # cases_of_category k cs else cases_of_category k cs)"
  by (simp add: cases_of_category_def)

lemma count_categories_eq:
  "count_categories m cs k =
     (if k \<in> category_key ` set cs
      then Some (fst (case m k of None \<Rightarrow> (0, 0) | Some e \<Rightarrow> e)
                   + length (cases_of_category k cs),
                 snd (case m k of None \<Rightarrow> (0, 0) | Some e \<Rightarrow> e)
                   + length (filter is_correct (cases_of_category k cs)))
      else m k)"
proof (induction cs arbitrary: m)
  case Nil
  then show ?case by simp
next
  case (Cons c cs)
  show ?case
  proof (cases "category_key c = k")
    case True
    then show ?thesis
      by (auto simp: Cons.IH Let_def cases_of_category_def filter_empty_conv image_iff)
  next
    case False
    then show ?thesis
      by (simp add: Cons.IH Let_def cases_of_category_Cons)
  qed
qed

lemma cases_of_category_nonempty:
  "k \<in> category_key ` set cs \<Longrightarrow> 0 < length (cases_of_category k cs)"
  by (auto simp: cases_of_category_def filter_empty_conv)

lemma category_performance_eq:
  "category_performance (calculate_summary_metrics cs) k =
     (if k \<in> category_key ` set cs
      then Some \<lparr> total = length (cases_of_category k cs),
                  correct = length (filter is_correct (cases_of_category k cs)),
                  accuracy = percentage
                    (int (length (filter is_correct (cases_of_category k cs))))
                    (int (length (cases_of_category k cs))) \<rparr>
      else None)"
  using cases_of_category_nonempty [of k cs]
  by (simp add: calculate_summary_metrics_def Let_def with_accuracy_def count_categories_eq
        accuracy_of_def)

lemma sample_case_results:
  "is_correct (run_test_case sample_checker tc001)
   \<and> \<not> is_correct (run_test_case sample_checker tc002)
   \<and> \<not> is_correct (run_test_case sample_checker tc006)
   \<and> status_returned sample_checker tc001 = Some ''Non-Compliant''
   \<and> status_returned sample_checker tc002 = None
   \<and> status_returned sample_checker tc006 = Some ''Unknown''"
  by code_simp

lemma sample_material_cases:
  "length (cases_of_category ''material_specifications''
      (map (run_test_case sample_checker) [tc001, tc002, tc006])) = 2
   \<and> length (filter is_correct (cases_of_category ''material_specifications''
      (map (run_test_case sample_checker) [tc001, tc002, tc006]))) = 1
   \<and> ''material_specifications''
       \<in> category_key ` set (map (run_test_case sample_checker) [tc001, tc002, tc006])"
  by code_simp

lemma percentage_half: "percentage 1 2 = 50"
  by code_simp

lemma percentage_third: "percentage 1 3 = 2345624805922133 / 70368744177664"
  by code_simp

lemma sample_all_cases:
  "length (map (run_test_case sample_checker) [tc001, tc002, tc006]) = 3
   \<and> length (filter is_correct (map (run_test_case sample_checker) [tc001, tc002, tc006])) = 1"
  by code_simp

lemma accuracy_of_error:
  assumes "k \<le> t" and "0 < t"
  shows "\<bar>accuracy_of k t - 100 * of_nat k / of_nat t\<bar> \<le> 1 / 2 ^ 44"
proof -
  have "\<bar>percentage (int k) (int t) - 100 * of_int (int k) / of_int (int t)\<bar> \<le> 1 / 2 ^ 44"
    using assms by (intro percentage_error) simp_all
  then show ?thesis using assms by (simp add: accuracy_of_def)
qed

text \<open>
  C9. The harness scores a test case as correct exactly when the checker returns a
  result whose \<^verbatim>\<open>compliance_status\<close> (read as \<^verbatim>\<open>Unknown\<close> when the result has none)
  equals the expected status of the case; a case on which the checker raises is not
  correct. The overall accuracy of the summary is 0 without cases and otherwise the
  number of correct cases divided by the number of cases, times 100, as a float: it
  differs from the exact quotient times 100 by at most \<open>2\<^sup>-\<^sup>4\<^sup>4\<close>. The summary has
  an entry for exactly the categories that appear in the cases, with the number of the
  category's cases, the number of its correct cases and, to the same precision, their
  quotient times 100. A case result carries the category of its test case, and
  \<^verbatim>\<open>run_compliance_benchmark\<close> returns the case results with this summary unless its
  timing figures divide by zero.
\<close>

theorem benchmark_scores_and_accuracy:
  "is_correct (run_test_case check tc) = (status_returned check tc = Some (tc_expected_status tc))
   \<and> category_key (run_test_case check tc) = tc_category tc
   \<and> (cs = [] \<longrightarrow> overall_accuracy (calculate_summary_metrics cs) = 0)
   \<and> (cs \<noteq> [] \<longrightarrow>
        \<bar>overall_accuracy (calculate_summary_metrics cs)
           - 100 * of_nat (length (filter is_correct cs)) / of_nat (length cs)\<bar> \<le> 1 / 2 ^ 44)
   \<and> (k \<notin> category_key ` set cs \<longrightarrow>
        category_performance (calculate_summary_metrics cs) k = None)
   \<and> (k \<in> category_key ` set cs \<longrightarrow>
        (\<exists>entry. category_performance (calculate_summary_metrics cs) k = Some entry
           \<and> total entry = length (cases_of_category k cs)
           \<and> correct entry = length (filter is_correct (cases_of_category k cs))
           \<and> \<bar>accuracy entry - 100 * of_nat (correct entry) / of_nat (total entry)\<bar>
                 \<le> 1 / 2 ^ 44))
   \<and> run_compliance_benchmark check tcs total_time =
       (if tcs = [] \<or> total_time = 0 then Inl ZeroDivisionError
        else Inr (map (run_test_case check) tcs,
                  calculate_summary_metrics (map (run_test_case check) tcs)))"
proof -
  have scored: "is_correct (run_test_case check tc)
      = (status_returned check tc = Some (tc_expected_status tc))"
    by (simp add: run_test_case_def status_returned_def is_correct_def Let_def
          split: sum.splits)
  have cat: "category_key (run_test_case check tc) = tc_category tc"
    by (simp add: run_test_case_def category_key_def Let_def split: sum.splits)
  have overall: "overall_accuracy (calculate_summary_metrics cs)
      = accuracy_of (length (filter is_correct cs)) (length cs)"
    by (simp add: calculate_summary_metrics_def Let_def)
  have empty: "overall_accuracy (calculate_summary_metrics cs) = 0" if "cs = []"
    unfolding overall using that by (simp add: accuracy_of_def)
  have nonempty: "\<bar>overall_accuracy (calculate_summary_metrics cs)
           - 100 * of_nat (length (filter is_correct cs)) / of_nat (length cs)\<bar> \<le> 1 / 2 ^ 44"
    if "cs \<noteq> []"
    unfolding overall using that by (intro accuracy_of_error) simp_all
  have absent: "category_performance (calculate_summary_metrics cs) k = None"
    if "k \<notin> category_key ` set cs"
    using that by (simp add: category_performance_eq)
  have present: "\<exists>entry. category_performance (calculate_summary_metrics cs) k = Some entry
           \<and> total entry = length (cases_of_category k cs)
           \<and> correct entry = length (filter is_correct (cases_of_category k cs))
           \<and> \<bar>accuracy entry - 100 * of_nat (correct entry) / of_nat (total entry)\<bar>
                 \<le> 1 / 2 ^ 44"
    if "k \<in> category_key ` set cs"
  proof -
    define t where "t = length (cases_of_category k cs)"
    define c where "c = length (filter is_correct (cases_of_category k cs))"
    have t: "0 < t" using that unfolding t_def by (rule cases_of_category_nonempty)
    have c: "c \<le> t" by (simp add: c_def t_def)
    have "category_performance (calculate_summary_metrics cs) k
        = Some \<lparr> total = t, correct = c, accuracy = accuracy_of c t \<rparr>"
      using that t by (simp add: category_performance_eq accuracy_of_def t_def c_def)
    moreover have "\<bar>accuracy_of c t - 100 * of_nat c / of_nat t\<bar> \<le> 1 / 2 ^ 44"
      using c t by (rule accuracy_of_error)
    ultimately show ?thesis by (simp add: t_def c_def)
  qed
  have run: "run_compliance_benchmark check tcs total_time =
       (if tcs = [] \<or> total_time = 0 then Inl ZeroDivisionError
        else Inr (map (run_test_case check) tcs,
                  calculate_summary_metrics (map (run_test_case check) tcs)))"
    by (simp add: run_compliance_benchmark_def Let_def)
  show ?thesis using scored cat empty nonempty absent present run by blast
qed

text \<open>
  The sample checker is right on one of the three sample cases, and on one of the two
  cases of the category \<^verbatim>\<open>material_specifications\<close>: the accuracies are the floats of
  \<^verbatim>\<open>1 / 3 * 100\<close> and \<^verbatim>\<open>1 / 2 * 100\<close>.
\<close>

theorem benchmark_scores_and_accuracy_witness:
  "is_correct (run_test_case sample_checker tc001)
   \<and> status_returned sample_checker tc001 = Some (tc_expected_status tc001)
   \<and> \<not> is_correct (run_test_case sample_checker tc002)
   \<and> run_compliance_benchmark sample_checker [tc001, tc002, tc006] 1
       = Inr (map (run_test_case sample_checker) [tc001, tc002, tc006],
              calculate_summary_metrics
                (map (run_test_case sample_checker) [tc001, tc002, tc006]))
   \<and> \<bar>overall_accuracy
          (calculate_summary_metrics (map (run_test_case sample_checker) [tc001, tc002, tc006]))
        - 100 * 1 / 3\<bar> \<le> 1 / 2 ^ 44
   \<and> overall_accuracy
        (calculate_summary_metrics (map (run_test_case sample_checker) [tc001, tc002, tc006]))
       = 2345624805922133 / 70368744177664
   \<and> category_performance
        (calculate_summary_metrics (map (run_test_case sample_checker) [tc001, tc002, tc006]))
        ''material_specifications''
       = Some \<lparr> total = 2, correct = 1, accuracy = 50 \<rparr>"
proof -
  let ?cs = "map (run_test_case sample_checker) [tc001, tc002, tc006]"
  note main = benchmark_scores_and_accuracy [of sample_checker tc001 ?cs
      "''material_specifications''" "[tc001, tc002, tc006]" 1]
  have "is_correct (run_test_case sample_checker tc001)
      = (status_returned sample_checker tc001 = Some (tc_expected_status tc001))"
    using main by blast
  then have a: "status_returned sample_checker tc001 = Some (tc_expected_status tc001)"
    using sample_case_results by blast
  have ne: "?cs \<noteq> []" by simp
  have "\<bar>overall_accuracy (calculate_summary_metrics ?cs)
           - 100 * of_nat (length (filter is_correct ?cs)) / of_nat (length ?cs)\<bar> \<le> 1 / 2 ^ 44"
    using main ne by blast
  then have b: "\<bar>overall_accuracy (calculate_summary_metrics ?cs) - 100 * 1 / 3\<bar> \<le> 1 / 2 ^ 44"
    using sample_all_cases by simp
  have c: "overall_accuracy (calculate_summary_metrics ?cs) = 2345624805922133 / 70368744177664"
    using sample_all_cases
    by (simp add: calculate_summary_metrics_def Let_def accuracy_of_def percentage_third)
  have d: "category_performance (calculate_summary_metrics ?cs) ''material_specifications''
       = Some \<lparr> total = 2, correct = 1, accuracy = 50 \<rparr>"
    using sample_material_cases by (simp add: category_performance_eq percentage_half)
  have e: "run_compliance_benchmark sample_checker [tc001, tc002, tc006] 1
      = Inr (?cs, calculate_summary_metrics ?cs)"
    using main by simp
  show ?thesis using a b c d e sample_case_results by blast
qed

section \<open>The verdicts of the Comparator\<close>

text \<open>
  C1. In each of the four numeric categories (insulation thickness, seismic resistance,
  emergency power duration, containment pump count), on a design value and a required
  value that are both present, the Comparator answers Compliant if and only if the
  design value is at least the required value, equal values included, and Non-Compliant
  otherwise. In the material grade category it answers Compliant if and only if the
  design's grade family is one of the requirement's accepted families, and
  Non-Compliant otherwise.
\<close>

theorem comparator_verdicts:
  "(numeric_category c \<longrightarrow>
      (compare c (Number d) (Number r) = Compliant \<longleftrightarrow> r \<le> d)
    \<and> (compare c (Number d) (Number r) = NonCompliant \<longleftrightarrow> \<not> r \<le> d)
    \<and> compare c (Number d) (Number d) = Compliant)
   \<and> (compare MaterialGrade (GradeFamily g) (AcceptedFamilies gs) = Compliant
        \<longleftrightarrow> g \<in> set gs)
   \<and> (compare MaterialGrade (GradeFamily g) (AcceptedFamilies gs) = NonCompliant
        \<longleftrightarrow> g \<notin> set gs)"
  by (cases c) (simp_all add: numeric_category_def)

theorem comparator_verdicts_witness:
  "numeric_category InsulationThickness
   \<and> compare InsulationThickness (Number 45) (Number 50) = NonCompliant
   \<and> compare InsulationThickness (Number 50) (Number 50) = Compliant
   \<and> compare MaterialGrade (GradeFamily ''300-series'')
        (AcceptedFamilies [''300-series'', ''equivalent'']) = Compliant"
proof -
  have n: "numeric_category InsulationThickness"
    by (simp add: numeric_category_def)
  have m: "(''300-series'' :: string) \<in> set [''300-series'', ''equivalent'']"
    by simp
  show ?thesis
    using comparator_verdicts [of InsulationThickness 45 50 "''300-series''"
        "[''300-series'', ''equivalent'']"]
      comparator_verdicts [of InsulationThickness 50 50 "''300-series''"
        "[''300-series'', ''equivalent'']"] n m
    by simp
qed

section \<open>When the call returns\<close>

text \<open>
  The loop raises exactly when the first record of the batch that has a category is not
  an insulation record; the only exception of a call is this \<^verbatim>\<open>UnboundLocalError\<close>.
\<close>

lemma extract_step_bound:
  assumes "re_bound st"
  shows "\<exists>st'. extract_step st r = Inr st' \<and> re_bound st'"
  using assms unfolding extract_step_by_category
  by (simp split: option.splits category.splits)

lemma extract_loop_bound:
  "re_bound st \<Longrightarrow> \<exists>st'. extract_loop st rs = Inr st'"
proof (induction rs arbitrary: st)
  case Nil
  then show ?case by simp
next
  case (Cons r rs)
  obtain st1 where "extract_step st r = Inr st1" "re_bound st1"
    using extract_step_bound [OF Cons.prems] by blast
  then show ?case using Cons.IH [of st1] by simp
qed

lemma first_categorised_Cons:
  "first_categorised (r # rs) =
     (case first_matching_category (regulation_side r) of
        None \<Rightarrow> first_categorised rs
      | Some c \<Rightarrow> Some c)"
  by (simp add: first_categorised_def map_filter_simps split: option.splits)

lemma extract_loop_unbound:
  assumes "\<not> re_bound st"
  shows "(first_categorised rs = None \<or> first_categorised rs = Some Insulation
        \<longrightarrow> (\<exists>st'. extract_loop st rs = Inr st'))
   \<and> (\<not> (first_categorised rs = None \<or> first_categorised rs = Some Insulation)
        \<longrightarrow> extract_loop st rs = Inl UnboundLocalError)"
  using assms
proof (induction rs arbitrary: st)
  case Nil
  then show ?case by (simp add: first_categorised_def map_filter_simps)
next
  case (Cons r rs)
  show ?case
  proof (cases "first_matching_category (regulation_side r)")
    case None
    then have step: "extract_step st r = Inr st"
      by (simp add: extract_step_by_category)
    have "extract_loop st (r # rs) = extract_loop st rs"
      using step by simp
    moreover have "first_categorised (r # rs) = first_categorised rs"
      using None by (simp add: first_categorised_Cons)
    ultimately show ?thesis
      using Cons.IH [OF Cons.prems] by simp
  next
    case (Some c)
    show ?thesis
    proof (cases "c = Insulation")
      case True
      obtain st1 where step: "extract_step st r = Inr st1" and "re_bound st1"
        using Some True by (simp add: extract_step_by_category)
      then obtain st' where "extract_loop st1 rs = Inr st'"
        using extract_loop_bound by blast
      then show ?thesis using step Some True by (simp add: first_categorised_Cons)
    next
      case False
      then have "extract_step st r = Inl UnboundLocalError"
        using Some Cons.prems by (cases c) (simp_all add: extract_step_by_category)
      then show ?thesis using Some False by (simp add: first_categorised_Cons)
    qed
  qed
qed

lemma extract_loop_outcome:
  "(first_categorised rs = None \<or> first_categorised rs = Some Insulation
      \<longrightarrow> (\<exists>st. extract_loop initial_extraction rs = Inr st))
   \<and> (\<not> (first_categorised rs = None \<or> first_categorised rs = Some Insulation)
      \<longrightarrow> extract_loop initial_extraction rs = Inl UnboundLocalError)"
proof -
  have "\<not> re_bound initial_extraction" by (simp add: initial_extraction_def)
  from extract_loop_unbound [OF this, of rs] show ?thesis .
qed

lemma respond_returns:
  assumes "extract_loop initial_extraction rs = Inr st"
  shows "\<exists>resp. respond q rs st = Inr resp"
proof (cases "question_topic q = Some EmergencyTopic")
  case True
  have "chat_with_documents q [] [] rs = respond q rs st"
    using assms by (simp add: chat_with_documents_def)
  then have "respond q rs st =
           Inr (emergency_response (design_hours st)
                  (if design_hours st \<noteq> ''N/A'' \<and> required_hours st \<noteq> ''N/A''
                      \<and> float_ge (float_of_digits (design_hours st))
                            (float_of_digits (required_hours st))
                   then ''meets'' else ''does not meet'')
                  (required_hours st))"
    using emergency_answer [OF True assms, of "[]" "[]"] by simp
  then show ?thesis by blast
next
  case False
  then show ?thesis
    by (cases "question_topic q"; simp add: respond_by_topic split: topic.splits)
qed

lemma chat_returns_iff:
  "(\<exists>resp. chat_with_documents q d r rs = Inr resp) \<longleftrightarrow>
     (first_categorised rs = None \<or> first_categorised rs = Some Insulation)"
proof
  assume "\<exists>resp. chat_with_documents q d r rs = Inr resp"
  then obtain st where "extract_loop initial_extraction rs = Inr st"
    unfolding chat_Inr by blast
  then show "first_categorised rs = None \<or> first_categorised rs = Some Insulation"
    using extract_loop_outcome [of rs] by auto
next
  assume "first_categorised rs = None \<or> first_categorised rs = Some Insulation"
  then obtain st where loop: "extract_loop initial_extraction rs = Inr st"
    using extract_loop_outcome [of rs] by blast
  obtain resp where "respond q rs st = Inr resp"
    using respond_returns [OF loop] by blast
  then show "\<exists>resp. chat_with_documents q d r rs = Inr resp"
    using loop by (simp add: chat_with_documents_def)
qed

lemma chat_raises_iff:
  "chat_with_documents q d r rs = Inl e \<longleftrightarrow>
     e = UnboundLocalError
     \<and> \<not> (first_categorised rs = None \<or> first_categorised rs = Some Insulation)"
proof
  assume raised: "chat_with_documents q d r rs = Inl e"
  then have no: "\<not> (\<exists>resp. chat_with_documents q d r rs = Inr resp)" by simp
  then have cat: "\<not> (first_categorised rs = None \<or> first_categorised rs = Some Insulation)"
    unfolding chat_returns_iff .
  then have "extract_loop initial_extraction rs = Inl UnboundLocalError"
    using extract_loop_outcome [of rs] by blast
  then have "chat_with_documents q d r rs = Inl UnboundLocalError"
    by (simp add: chat_with_documents_def)
  then show "e = UnboundLocalError
     \<and> \<not> (first_categorised rs = None \<or> first_categorised rs = Some Insulation)"
    using raised cat by simp
next
  assume "e = UnboundLocalError
     \<and> \<not> (first_categorised rs = None \<or> first_categorised rs = Some Insulation)"
  then have "e = UnboundLocalError"
      and "extract_loop initial_extraction rs = Inl UnboundLocalError"
    using extract_loop_outcome [of rs] by blast+
  then show "chat_with_documents q d r rs = Inl e"
    by (simp add: chat_with_documents_def)
qed

text \<open>A question without a topic keyword gets the help message whenever the call returns.\<close>

lemma help_message_when_returning:
  assumes "question_topic q = None" and "chat_with_documents q d r rs = Inr resp"
  shows "resp = help_message"
proof -
  obtain st where "respond q rs st = Inr resp"
    using assms(2) unfolding chat_Inr by blast
  then show ?thesis using assms(1) by (simp add: respond_by_topic)
qed

section \<open>A batch that does not start with an insulation record\<close>

lemma first_categorised_samples:
  "first_categorised [result_insulation, result_seismic] = Some Insulation
   \<and> first_categorised [result_insulation, result_emergency] = Some Insulation"
  by code_simp

lemma hello_question: "question_topic ''hello'' = None"
  by code_simp

text \<open>
  C2. The claim that \<^verbatim>\<open>chat_with_documents\<close> never raises fails: \<^verbatim>\<open>import re\<close> is executed
  only in the insulation branch of the loop body, so a batch whose first record is the
  seismic result of the benchmark raises \<^verbatim>\<open>UnboundLocalError\<close>, whatever the question, the
  documents and the rest of the batch are, while the call returns a response when the
  insulation result comes before the seismic one.
\<close>

theorem chat_raises_when_seismic_record_first:
  "chat_with_documents user_question design_text regulations_text (result_seismic # rest)
     = Inl UnboundLocalError
   \<and> (\<exists>resp. chat_with_documents user_question design_text regulations_text
                [result_insulation, result_seismic] = Inr resp)"
proof -
  have "chat_with_documents user_question design_text regulations_text (result_seismic # rest)
     = Inl UnboundLocalError"
    by (simp add: chat_with_documents_def step_seismic_unbound)
  moreover have "\<exists>resp. chat_with_documents user_question design_text regulations_text
                [result_insulation, result_seismic] = Inr resp"
    unfolding chat_returns_iff using first_categorised_samples by simp
  ultimately show ?thesis by blast
qed

text \<open>
  C6. The question \<^verbatim>\<open>hello\<close> has none of the keywords, yet on the batch that holds only
  the emergency power result of the benchmark the call raises \<^verbatim>\<open>UnboundLocalError\<close>
  instead of returning the help message, which it returns on the empty batch and on the
  batch that has the insulation result before the emergency power result.
\<close>

theorem chat_hello_raises_on_emergency_record:
  "question_topic ''hello'' = None
   \<and> chat_with_documents ''hello'' design_text regulations_text [result_emergency]
       = Inl UnboundLocalError
   \<and> chat_with_documents ''hello'' design_text regulations_text [] = Inr help_message
   \<and> chat_with_documents ''hello'' design_text regulations_text
         [result_insulation, result_emergency] = Inr help_message"
proof -
  have "chat_with_documents ''hello'' design_text regulations_text [result_emergency]
       = Inl UnboundLocalError"
    by (simp add: chat_with_documents_def step_emergency_unbound)
  moreover have "chat_with_documents ''hello'' design_text regulations_text [] = Inr help_message"
    by (simp add: chat_with_documents_def respond_by_topic hello_question)
  moreover have "chat_with_documents ''hello'' design_text regulations_text
         [result_insulation, result_emergency] = Inr help_message"
  proof -
    obtain resp where resp: "chat_with_documents ''hello'' design_text regulations_text
         [result_insulation, result_emergency] = Inr resp"
      using first_categorised_samples
        chat_returns_iff [of "''hello''" design_text regulations_text
          "[result_insulation, result_emergency]"]
      by blast
    then show ?thesis using help_message_when_returning [OF hello_question resp] by simp
  qed
  ultimately show ?thesis using hello_question by blast
qed

end
